theory Spec2Isabelle
  imports Main "HOL-Library.Word" "HOL-Library.List_Lexorder" "HOL-Library.Multiset"
begin

unbundle bit_operations_syntax

section \<open>JavaScript values\<close>

text \<open>
  A JavaScript string is a sequence of 16-bit code units. \<open>ustr\<close> embeds an ASCII
  literal of the source, so that \<open>ustr ''@!@''\<close> is the string \<^verbatim>\<open>'@!@'\<close>.
\<close>

type_synonym jsstring = "16 word list"

definition ustr :: "string \<Rightarrow> jsstring" where
  "ustr s = map (\<lambda>c. of_nat (of_char c)) s"

text \<open>
  The values a raw snapshot and the options can hold: the primitives, with a number
  kept as its IEEE-754 binary64 bit pattern, and arrays.
\<close>

datatype jsval =
    Undefined
  | Null
  | Bool bool
  | Num "64 word"
  | Str jsstring
  | Arr "jsval list"

text \<open>
  What a call can raise: the two errors of the language that the code can meet, and
  \<open>Thrown\<close> for whatever a function from outside the model raises.
\<close>

datatype js_error = TypeError | URIError | Thrown

text \<open>A number is falsy when it is \<open>+0\<close>, \<open>-0\<close> or a NaN.\<close>

definition is_zero :: "64 word \<Rightarrow> bool" where
  "is_zero w \<longleftrightarrow> w AND 0x7FFFFFFFFFFFFFFF = 0"

definition is_nan :: "64 word \<Rightarrow> bool" where
  "is_nan w \<longleftrightarrow> w AND 0x7FF0000000000000 = 0x7FF0000000000000 \<and> w AND 0x000FFFFFFFFFFFFF \<noteq> 0"

fun truthy :: "jsval \<Rightarrow> bool" where
  "truthy Undefined = False"
| "truthy Null = False"
| "truthy (Bool b) = b"
| "truthy (Num w) = (\<not> is_zero w \<and> \<not> is_nan w)"
| "truthy (Str s) = (s \<noteq> [])"
| "truthy (Arr xs) = True"

text \<open>
  A raw snapshot (\<open>clientData\<close>) is an object: a map from field names to values.
  It is a plain object, whose prototype is \<open>Object.prototype\<close>. Reading a field that is
  not there gives \<open>undefined\<close>: none of the fields that the derivers read by name is a
  property of \<open>Object.prototype\<close>.
\<close>

type_synonym snapshot = "jsstring \<rightharpoonup> jsval"

definition field :: "snapshot \<Rightarrow> string \<Rightarrow> jsval" where
  "field obj k = (case obj (ustr k) of None \<Rightarrow> Undefined | Some v \<Rightarrow> v)"

text \<open>
  \<open>v.length\<close> used as a condition: reading a property of \<open>undefined\<close> or \<open>null\<close>
  raises a TypeError; a string or an array has its length; a boolean or a number has no
  such property, and \<open>undefined\<close> is falsy.
\<close>

fun length_truthy :: "jsval \<Rightarrow> js_error + bool" where
  "length_truthy Undefined = Inl TypeError"
| "length_truthy Null = Inl TypeError"
| "length_truthy (Bool b) = Inr False"
| "length_truthy (Num w) = Inr False"
| "length_truthy (Str s) = Inr (length s \<noteq> 0)"
| "length_truthy (Arr xs) = Inr (length xs \<noteq> 0)"

section \<open>The status deriver\<close>

text \<open>
  The table \<open>torrentStatusMap\<close> lives in \<^verbatim>\<open>shared/constants/torrentStatusMap\<close>, outside
  the model; \<open>getStatus\<close> takes it as a parameter, one field per entry it reads.
\<close>

record torrentStatusMap =
  "checking" :: jsval
  complete :: jsval
  seeding :: jsval
  paused :: jsval
  stopped :: jsval
  downloading :: jsval
  error :: jsval
  inactive :: jsval
  active :: jsval

text \<open>
  \<open>getStatus\<close>: the list \<open>torrentStatus\<close> starts empty and every \<open>push\<close> appends to it.
  \<open>===\<close> against a string literal holds for that very string only.
\<close>

definition getStatus :: "torrentStatusMap \<Rightarrow> snapshot \<Rightarrow> js_error + jsval list" where
  "getStatus tsm clientData =
    (let isHashChecking = field clientData ''isHashChecking'';
         isComplete = field clientData ''isComplete'';
         isOpen = field clientData ''isOpen'';
         uploadRate = field clientData ''uploadRate'';
         downloadRate = field clientData ''downloadRate'';
         state = field clientData ''state'';
         message = field clientData ''message'';
         torrentStatus = [];
         torrentStatus =
           (if isHashChecking = Str (ustr ''1'') then torrentStatus @ [checking tsm]
            else if isComplete = Str (ustr ''1'') \<and> isOpen = Str (ustr ''1'') \<and> state = Str (ustr ''1'')
              then (torrentStatus @ [complete tsm]) @ [seeding tsm]
            else if isComplete = Str (ustr ''1'') \<and> isOpen = Str (ustr ''1'') \<and> state = Str (ustr ''0'')
              then torrentStatus @ [paused tsm]
            else if isComplete = Str (ustr ''1'') \<and> isOpen = Str (ustr ''0'')
              then (torrentStatus @ [stopped tsm]) @ [complete tsm]
            else if isComplete = Str (ustr ''0'') \<and> isOpen = Str (ustr ''1'') \<and> state = Str (ustr ''1'')
              then torrentStatus @ [downloading tsm]
            else if isComplete = Str (ustr ''0'') \<and> isOpen = Str (ustr ''1'') \<and> state = Str (ustr ''0'')
              then torrentStatus @ [paused tsm]
            else if isComplete = Str (ustr ''0'') \<and> isOpen = Str (ustr ''0'')
              then torrentStatus @ [stopped tsm]
            else torrentStatus)
     in case length_truthy message of
          Inl e \<Rightarrow> Inl e
        | Inr hasMessage \<Rightarrow>
            (let torrentStatus = (if hasMessage then torrentStatus @ [error tsm] else torrentStatus);
                 torrentStatus =
                   (if uploadRate = Str (ustr ''0'') \<and> downloadRate = Str (ustr ''0'')
                    then torrentStatus @ [inactive tsm]
                    else torrentStatus @ [active tsm])
             in Inr torrentStatus))"

subsection \<open>The classification table of the specification\<close>

text \<open>
  The specification gives the primary classification as a table over the four flags,
  each \<open>"1"\<close>, \<open>"0"\<close> or something else; the first matching row decides.
\<close>

datatype flag = One | Zero | Other

definition flag_of :: "jsval \<Rightarrow> flag" where
  "flag_of v = (if v = Str (ustr ''1'') then One else if v = Str (ustr ''0'') then Zero else Other)"

fun primary_tags_spec :: "torrentStatusMap \<Rightarrow> flag \<Rightarrow> flag \<Rightarrow> flag \<Rightarrow> flag \<Rightarrow> jsval list" where
  "primary_tags_spec tsm One c opn s = [checking tsm]"
| "primary_tags_spec tsm h One One One = [complete tsm, seeding tsm]"
| "primary_tags_spec tsm h One One Zero = [paused tsm]"
| "primary_tags_spec tsm h One Zero s = [stopped tsm, complete tsm]"
| "primary_tags_spec tsm h Zero One One = [downloading tsm]"
| "primary_tags_spec tsm h Zero One Zero = [paused tsm]"
| "primary_tags_spec tsm h Zero Zero s = [stopped tsm]"
| "primary_tags_spec tsm h c opn s = []"

definition trailing_tags :: "torrentStatusMap \<Rightarrow> bool \<Rightarrow> jsval \<Rightarrow> jsval \<Rightarrow> jsval list" where
  "trailing_tags tsm hasMessage uploadRate downloadRate =
     (if hasMessage then [error tsm] else []) @
     [if uploadRate = Str (ustr ''0'') \<and> downloadRate = Str (ustr ''0'') then inactive tsm else active tsm]"

definition activity_tags :: "torrentStatusMap \<Rightarrow> jsval list \<Rightarrow> jsval list" where
  "activity_tags tsm tags = filter (\<lambda>t. t = active tsm \<or> t = inactive tsm) tags"

definition other_tags :: "torrentStatusMap \<Rightarrow> jsval set" where
  "other_tags tsm = {checking tsm, complete tsm, seeding tsm, paused tsm, stopped tsm,
     downloading tsm, error tsm}"

text \<open>A table with nine different strings, to run the theorems on.\<close>

definition sampleStatusMap :: torrentStatusMap where
  "sampleStatusMap = \<lparr> checking = Str (ustr ''ch''), complete = Str (ustr ''c''),
     seeding = Str (ustr ''sd''), paused = Str (ustr ''p''), stopped = Str (ustr ''s''),
     downloading = Str (ustr ''d''), error = Str (ustr ''e''), inactive = Str (ustr ''i''),
     active = Str (ustr ''a'') \<rparr>"

definition sampleFlags :: snapshot where
  "sampleFlags = [ustr ''isHashChecking'' \<mapsto> Str (ustr ''0''), ustr ''isComplete'' \<mapsto> Str (ustr ''1''),
     ustr ''isOpen'' \<mapsto> Str (ustr ''0''), ustr ''state'' \<mapsto> Str (ustr ''0''),
     ustr ''uploadRate'' \<mapsto> Str (ustr ''0''), ustr ''downloadRate'' \<mapsto> Str (ustr ''0''),
     ustr ''message'' \<mapsto> Str []]"


section \<open>String and array builtins\<close>

text \<open>
  \<open>String.prototype.indexOf\<close>: the index of the first occurrence of the pattern, or
  \<open>-1\<close> when there is none.
\<close>

fun indexOf_from :: "'a list \<Rightarrow> 'a list \<Rightarrow> nat \<Rightarrow> int" where
  "indexOf_from pat [] i = (if pat = [] then int i else - 1)"
| "indexOf_from pat (c # cs) i =
     (if take (length pat) (c # cs) = pat then int i else indexOf_from pat cs (Suc i))"

definition indexOf :: "'a list \<Rightarrow> 'a list \<Rightarrow> int" where
  "indexOf s pat = indexOf_from pat s 0"

text \<open>
  \<open>String.prototype.substr(start, length)\<close>: a negative start counts from the end, the
  length is clamped to what is left, and a length that is zero or negative gives the
  empty string.
\<close>

definition substr :: "'a list \<Rightarrow> int \<Rightarrow> int \<Rightarrow> 'a list" where
  "substr s start len =
     (let size = int (length s);
          intStart = (if start < 0 then max (size + start) 0 else min start size);
          intLength = min (max len 0) size;
          intEnd = min (intStart + intLength) size
      in take (nat (intEnd - intStart)) (drop (nat intStart) s))"

text \<open>
  \<open>String.prototype.split(sep)\<close> with a string separator and no limit: the pieces
  between the occurrences of the separator, found from left to right; the empty
  separator splits into single code units.
\<close>

function split :: "'a list \<Rightarrow> 'a list \<Rightarrow> 'a list list" where
  "split [] sep = (if sep = [] then [] else [[]])"
| "split (c # cs) sep =
     (if sep = [] then map (\<lambda>x. [x]) (c # cs)
      else if take (length sep) (c # cs) = sep then [] # split (drop (length sep) (c # cs)) sep
      else (case split cs sep of [] \<Rightarrow> [[c]] | t # ts \<Rightarrow> (c # t) # ts))"
  by pat_completeness auto
termination
  by (relation "measure (\<lambda>(s, sep). length s)") auto

text \<open>\<open>Array.prototype.join(sep)\<close> on an array of strings.\<close>

fun join :: "'a list \<Rightarrow> 'a list list \<Rightarrow> 'a list" where
  "join sep [] = []"
| "join sep [x] = x"
| "join sep (x # y # ys) = x @ sep @ join sep (y # ys)"

text \<open>
  \<open>Array.prototype.slice(start)\<close>: from \<open>start\<close> to the end, a negative start counting
  from the end.
\<close>

definition slice :: "'a list \<Rightarrow> int \<Rightarrow> 'a list" where
  "slice xs start =
     (let len = int (length xs);
          k = (if start < 0 then max (len + start) 0 else min start len)
      in drop (nat k) xs)"

text \<open>
  \<open>String.prototype.trim\<close> removes white space and line terminators from both ends.
\<close>

definition isWhiteSpace :: "16 word \<Rightarrow> bool" where
  "isWhiteSpace c \<longleftrightarrow>
     c \<in> {0x0009, 0x000A, 0x000B, 0x000C, 0x000D, 0x0020, 0x00A0, 0x1680, 0x2028, 0x2029,
          0x202F, 0x205F, 0x3000, 0xFEFF} \<or> (0x2000 \<le> c \<and> c \<le> 0x200A)"

definition trim :: "jsstring \<Rightarrow> jsstring" where
  "trim s = rev (dropWhile isWhiteSpace (rev (dropWhile isWhiteSpace s)))"

subsection \<open>decodeURIComponent\<close>

text \<open>
  Every \<open>%\<close> must be followed by two hexadecimal digits, which give one octet. An octet
  below \<open>0x80\<close> is that code unit; a greater one starts a UTF-8 sequence of two to four
  escaped octets, which must be the well-formed encoding of a code point, and the code
  point is appended in UTF-16. Everything else raises a URIError.
\<close>

definition hexDigit :: "16 word \<Rightarrow> nat option" where
  "hexDigit c =
     (if 0x30 \<le> c \<and> c \<le> 0x39 then Some (unat c - 0x30)
      else if 0x41 \<le> c \<and> c \<le> 0x46 then Some (unat c - 0x41 + 10)
      else if 0x61 \<le> c \<and> c \<le> 0x66 then Some (unat c - 0x61 + 10)
      else None)"

datatype uri_item = Unit "16 word" | Octet nat

fun unescape :: "jsstring \<Rightarrow> uri_item list option" where
  "unescape [] = Some []"
| "unescape (c # cs) =
     (if c = 0x25 then
        (case cs of
           h1 # h2 # rest \<Rightarrow>
             (case (hexDigit h1, hexDigit h2, unescape rest) of
                (Some a, Some b, Some items) \<Rightarrow> Some (Octet (16 * a + b) # items)
              | _ \<Rightarrow> None)
         | _ \<Rightarrow> None)
      else map_option (\<lambda>items. Unit c # items) (unescape cs))"

definition isContinuation :: "nat \<Rightarrow> bool" where
  "isContinuation b \<longleftrightarrow> 0x80 \<le> b \<and> b \<le> 0xBF"

definition utf16 :: "nat \<Rightarrow> jsstring" where
  "utf16 cp =
     (if cp \<le> 0xFFFF then [of_nat cp]
      else [of_nat (0xD800 + (cp - 0x10000) div 0x400), of_nat (0xDC00 + (cp - 0x10000) mod 0x400)])"

fun utf8 :: "uri_item list \<Rightarrow> jsstring option" where
  "utf8 [] = Some []"
| "utf8 (Unit c # items) = map_option (\<lambda>r. c # r) (utf8 items)"
| "utf8 (Octet b # items) =
     (if b < 0x80 then map_option (\<lambda>r. of_nat b # r) (utf8 items)
      else if 0xC0 \<le> b \<and> b \<le> 0xDF then
        (case items of
           Octet b1 # rest \<Rightarrow>
             (let cp = (b - 0xC0) * 0x40 + (b1 - 0x80)
              in if isContinuation b1 \<and> 0x80 \<le> cp
                 then map_option (\<lambda>r. utf16 cp @ r) (utf8 rest) else None)
         | _ \<Rightarrow> None)
      else if 0xE0 \<le> b \<and> b \<le> 0xEF then
        (case items of
           Octet b1 # Octet b2 # rest \<Rightarrow>
             (let cp = (b - 0xE0) * 0x1000 + (b1 - 0x80) * 0x40 + (b2 - 0x80)
              in if isContinuation b1 \<and> isContinuation b2 \<and> 0x800 \<le> cp \<and>
                    \<not> (0xD800 \<le> cp \<and> cp \<le> 0xDFFF)
                 then map_option (\<lambda>r. utf16 cp @ r) (utf8 rest) else None)
         | _ \<Rightarrow> None)
      else if 0xF0 \<le> b \<and> b \<le> 0xF7 then
        (case items of
           Octet b1 # Octet b2 # Octet b3 # rest \<Rightarrow>
             (let cp = (b - 0xF0) * 0x40000 + (b1 - 0x80) * 0x1000 + (b2 - 0x80) * 0x40 + (b3 - 0x80)
              in if isContinuation b1 \<and> isContinuation b2 \<and> isContinuation b3 \<and>
                    0x10000 \<le> cp \<and> cp \<le> 0x10FFFF
                 then map_option (\<lambda>r. utf16 cp @ r) (utf8 rest) else None)
         | _ \<Rightarrow> None)
      else None)"

definition decodeURIComponent :: "jsstring \<Rightarrow> js_error + jsstring" where
  "decodeURIComponent s =
     (case unescape s of
        None \<Rightarrow> Inl URIError
      | Some items \<Rightarrow> (case utf8 items of None \<Rightarrow> Inl URIError | Some r \<Rightarrow> Inr r))"

text \<open>
  \<open>Array.prototype.map\<close> with a callback that can raise: the first element on which the
  callback raises ends the call with that error.
\<close>

fun mapE :: "('a \<Rightarrow> js_error + 'b) \<Rightarrow> 'a list \<Rightarrow> js_error + 'b list" where
  "mapE f [] = Inr []"
| "mapE f (x # xs) =
     (case f x of
        Inl e \<Rightarrow> Inl e
      | Inr y \<Rightarrow> (case mapE f xs of Inl e \<Rightarrow> Inl e | Inr ys \<Rightarrow> Inr (y # ys)))"

section \<open>The peer and seed counts\<close>

text \<open>
  \<open>getPeerCount\<close> calls \<open>indexOf\<close> and \<open>substr\<close> on its argument. Only a string has
  both methods: on \<open>undefined\<close> and \<open>null\<close> the property read raises a TypeError, and on
  a boolean, a number or an array the call of a method that is not there does.
\<close>

fun getPeerCount :: "jsval \<Rightarrow> js_error + jsval" where
  "getPeerCount (Str string) =
     (let markerPosition = indexOf string (ustr ''@!@'')
      in Inr (Str (substr string 0 markerPosition)))"
| "getPeerCount Undefined = Inl TypeError"
| "getPeerCount Null = Inl TypeError"
| "getPeerCount (Bool b) = Inl TypeError"
| "getPeerCount (Num w) = Inl TypeError"
| "getPeerCount (Arr xs) = Inl TypeError"

definition getTotalPeers :: "snapshot \<Rightarrow> js_error + jsval" where
  "getTotalPeers clientData = getPeerCount (field clientData ''totalPeers'')"

definition getTotalSeeds :: "snapshot \<Rightarrow> js_error + jsval" where
  "getTotalSeeds clientData = getPeerCount (field clientData ''totalSeeds'')"

section \<open>The tag deriver\<close>

text \<open>
  \<open>getTags\<close>: \<open>tags === ''\<close> holds for the empty string only. \<open>split\<close> is a method of
  strings only. \<open>sort()\<close> without a comparator orders strings by their code units.
\<close>

fun getTags_of :: "jsval \<Rightarrow> js_error + jsval" where
  "getTags_of (Str tags) =
     (if tags = [] then Inr (Arr [])
      else (case mapE decodeURIComponent (sort (split tags (ustr '',''))) of
              Inl e \<Rightarrow> Inl e
            | Inr decoded \<Rightarrow> Inr (Arr (map Str decoded))))"
| "getTags_of Undefined = Inl TypeError"
| "getTags_of Null = Inl TypeError"
| "getTags_of (Bool b) = Inl TypeError"
| "getTags_of (Num w) = Inl TypeError"
| "getTags_of (Arr xs) = Inl TypeError"

definition getTags :: "snapshot \<Rightarrow> js_error + jsval" where
  "getTags clientData = (let tags = field clientData ''tags'' in getTags_of tags)"

section \<open>The date derivers\<close>

text \<open>
  \<open>cleanUpDate\<close>: a falsy argument gives the empty string; \<open>trim\<close> is a method of
  strings only.
\<close>

definition cleanUpDate :: "jsval \<Rightarrow> js_error + jsval" where
  "cleanUpDate dirtyDate =
     (if \<not> truthy dirtyDate then Inr (Str [])
      else (case dirtyDate of
              Str s \<Rightarrow>
                (let date = trim s
                 in if date = ustr ''0'' then Inr (Str []) else Inr (Str date))
            | _ \<Rightarrow> Inl TypeError))"

definition getAdded :: "snapshot \<Rightarrow> js_error + jsval" where
  "getAdded clientData = cleanUpDate (field clientData ''added'')"

definition getCreationDate :: "snapshot \<Rightarrow> js_error + jsval" where
  "getCreationDate clientData = cleanUpDate (field clientData ''creationDate'')"

text \<open>A snapshot whose tags are \<open>b,%41\<close> and one whose tags are the empty string.\<close>

definition sampleTags :: snapshot where
  "sampleTags = [ustr ''tags'' \<mapsto> Str (ustr ''b,%41'')]"

section \<open>The tracker deriver\<close>

text \<open>
  The pattern \<open>regEx.domainName\<close> lives in \<^verbatim>\<open>shared/util/regEx\<close>, outside the model.
  \<open>getTrackers\<close> takes its \<open>exec\<close> as a parameter: \<open>None\<close> is the \<open>null\<close> of no
  match, and a match is the array of the whole match and the capture groups, a group that
  did not take part being \<open>undefined\<close>.
\<close>

type_synonym regexExec = "jsstring \<Rightarrow> jsstring option list option"

text \<open>The body of the \<open>forEach\<close> callback: what one tracker does to \<open>trackerDomains\<close>.\<close>

definition pushTrackerDomain :: "regexExec \<Rightarrow> jsstring list \<Rightarrow> jsstring \<Rightarrow> jsstring list" where
  "pushTrackerDomain exec trackerDomains tracker =
     (case exec tracker of
        None \<Rightarrow> trackerDomains
      | Some groups \<Rightarrow>
          (case (if 1 < length groups then groups ! 1 else None) of
             None \<Rightarrow> trackerDomains
           | Some domain \<Rightarrow>
               if domain = [] then trackerDomains
               else
                 (let domainSubsets = split domain (ustr ''.'');
                      desiredSubsets = (2 :: int);
                      desiredSubsets =
                        (if int (length domainSubsets) > desiredSubsets then
                           (let lastDesiredSubset =
                                  domainSubsets ! nat (int (length domainSubsets) - desiredSubsets)
                            in if length lastDesiredSubset \<le> 3 then desiredSubsets + 1
                               else desiredSubsets)
                         else desiredSubsets);
                      domain = join (ustr ''.'') (slice domainSubsets (desiredSubsets * - 1))
                  in trackerDomains @ [domain])))"

definition getTrackers :: "regexExec \<Rightarrow> snapshot \<Rightarrow> js_error + jsval" where
  "getTrackers exec clientData =
     (case field clientData ''trackers'' of
        Str s \<Rightarrow>
          (let trackers = split s (ustr ''@!@'');
               trackerDomains = foldl (pushTrackerDomain exec) [] trackers
           in Inr (Arr (map Str trackerDomains)))
      | _ \<Rightarrow> Inl TypeError)"

subsection \<open>The tracker rule of the specification\<close>

definition hostname :: "regexExec \<Rightarrow> jsstring \<Rightarrow> jsstring option" where
  "hostname exec tracker =
     (case exec tracker of
        Some (whole # Some h # groups) \<Rightarrow> if h = [] then None else Some h
      | _ \<Rightarrow> None)"

definition keptLabels :: "jsstring list \<Rightarrow> nat" where
  "keptLabels labels =
     (if length labels > 2 \<and> length (labels ! (length labels - 2)) \<le> 3 then 3 else 2)"

definition rightmost :: "nat \<Rightarrow> 'a list \<Rightarrow> 'a list" where
  "rightmost n xs = drop (length xs - n) xs"

definition registrableDomain :: "jsstring \<Rightarrow> jsstring" where
  "registrableDomain h =
     (let labels = split h (ustr ''.'') in join (ustr ''.'') (rightmost (keptLabels labels) labels))"

text \<open>
  A stand-in for the pattern, to run the theorems on: an entry that starts with
  \<open>udp://\<close> matches, and the rest of the entry is its host name.
\<close>

definition sampleExec :: regexExec where
  "sampleExec tracker =
     (if take 6 tracker = ustr ''udp://'' then Some [Some tracker, Some (drop 6 tracker)] else None)"

definition sampleTrackers :: snapshot where
  "sampleTrackers = [ustr ''trackers'' \<mapsto> Str (ustr ''udp://t.a.co.uk@!@x@!@udp://b.org'')]"

section \<open>The derivers that compute with numbers\<close>

text \<open>
  The arithmetic of \<open>getEta\<close> and \<open>getPercentComplete\<close> is that of IEEE-754 doubles, after
  the conversion of the operands to numbers. The model does not interpret it: it takes
  the conversion \<open>ToNumber\<close>, the three operators, the comparison \<open>x < y\<close>,
  \<open>Number.prototype.toFixed\<close> and the conversion of a number to a string as parameters. None of them can raise on the values of
  \<open>jsval\<close>. The literals \<open>0\<close>, \<open>10\<close> and \<open>100\<close> are written as their bit patterns.
\<close>

record arith =
  toNumber :: "jsval \<Rightarrow> 64 word"
  fdiv :: "64 word \<Rightarrow> 64 word \<Rightarrow> 64 word"
  fmul :: "64 word \<Rightarrow> 64 word \<Rightarrow> 64 word"
  fsub :: "64 word \<Rightarrow> 64 word \<Rightarrow> 64 word"
  flt :: "64 word \<Rightarrow> 64 word \<Rightarrow> bool"
  toFixed :: "64 word \<Rightarrow> nat \<Rightarrow> jsstring"
  numberToString :: "64 word \<Rightarrow> jsstring"

definition num0 :: "64 word" where "num0 = 0"
definition num10 :: "64 word" where "num10 = 0x4024000000000000"
definition num100 :: "64 word" where "num100 = 0x4059000000000000"

text \<open>
  \<open>formatUtil.secondsToDuration\<close> lives in \<^verbatim>\<open>shared/util/formatUtil\<close>, outside the
  model; \<open>getEta\<close> takes it as a parameter that returns a value or raises.
\<close>

definition getEta :: "arith \<Rightarrow> (jsval \<Rightarrow> js_error + jsval) \<Rightarrow> snapshot \<Rightarrow> js_error + jsval" where
  "getEta ar secondsToDuration clientData =
     (let rate = field clientData ''downloadRate'';
          completed = field clientData ''bytesDone'';
          total = field clientData ''sizeBytes''
      in if flt ar num0 (toNumber ar rate) then
           (let cumSeconds =
                  fdiv ar (fsub ar (toNumber ar total) (toNumber ar completed)) (toNumber ar rate)
            in secondsToDuration (Num cumSeconds))
         else Inr (Str (ustr ''Infinity'')))"

definition getPercentComplete :: "arith \<Rightarrow> snapshot \<Rightarrow> js_error + jsval" where
  "getPercentComplete ar clientData =
     (let percentComplete =
            fmul ar (fdiv ar (toNumber ar (field clientData ''bytesDone''))
                             (toNumber ar (field clientData ''sizeBytes''))) num100
      in if flt ar num0 percentComplete \<and> flt ar percentComplete num10 then
           Inr (Num (toNumber ar (Str (toFixed ar percentComplete 2))))
         else if flt ar num10 percentComplete \<and> flt ar percentComplete num100 then
           Inr (Num (toNumber ar (Str (toFixed ar percentComplete 1))))
         else Inr (Num percentComplete))"

section \<open>The record builder\<close>

definition DEFAULT_DATA_KEYS :: "jsval list" where
  "DEFAULT_DATA_KEYS = map (\<lambda>k. Str (ustr k))
     [''hash'', ''added'', ''bytesDone'', ''downloadRate'', ''downloadTotal'', ''eta'', ''name'',
      ''percentComplete'', ''ratio'', ''sizeBytes'', ''status'', ''totalPeers'', ''totalSeeds'',
      ''uploadTotal'', ''uploadRate'', ''priority'', ''trackers'',
      ''creationDate'', ''freeDiskSpace'', ''connectedPeers'', ''connectedSeeds'', ''message'',
      ''basePath'', ''ignoreScheduler'', ''comment'', ''isPrivate'', ''directory'', ''filename'',
      ''isMultiFile'', ''tags'']"

text \<open>
  What the builder takes from outside the model: the status table, the domain pattern,
  the arithmetic, \<open>formatUtil.secondsToDuration\<close>, \<open>stringUtil.capitalize\<close> (from
  \<^verbatim>\<open>shared/util/stringUtil\<close>; its result as it stands in the template literal, or the
  error it raises) and the clock \<open>Date.now()\<close>.
\<close>

record env =
  statusMap :: torrentStatusMap
  domainName :: regexExec
  numbers :: arith
  secondsToDuration :: "jsval \<Rightarrow> js_error + jsval"
  capitalize :: "jsval \<Rightarrow> js_error + jsstring"
  dateNow :: jsval

text \<open>
  \<open>ToString\<close>, which makes a property key of a value that is not a string. An array
  joins its elements with commas, \<open>undefined\<close> and \<open>null\<close> elements giving nothing.
\<close>

fun toString :: "arith \<Rightarrow> jsval \<Rightarrow> jsstring" where
  "toString ar Undefined = ustr ''undefined''"
| "toString ar Null = ustr ''null''"
| "toString ar (Bool b) = (if b then ustr ''true'' else ustr ''false'')"
| "toString ar (Num w) = numberToString ar w"
| "toString ar (Str s) = s"
| "toString ar (Arr xs) =
     join (ustr '','') (map (\<lambda>x. if x = Undefined \<or> x = Null then [] else toString ar x) xs)"

fun isArray :: "jsval \<Rightarrow> bool" where
  "isArray (Arr xs) = True"
| "isArray v = False"

fun elements :: "jsval \<Rightarrow> jsval list" where
  "elements (Arr xs) = xs"
| "elements v = []"

text \<open>
  The options: an object with the two properties the code reads, a property that is not
  there reading as \<open>undefined\<close>.
\<close>

record opts =
  currentTime :: jsval
  requestedData :: jsval

text \<open>
  What a property of the record can hold: a value, or \<open>Inherited\<close>, which stands for
  what a plain object inherits from \<open>Object.prototype\<close> under the name of the property:
  one of its functions, or \<open>Object.prototype\<close> itself under the name \<open>__proto__\<close>.
\<close>

datatype recval = Val jsval | Inherited

definition objectPrototypeMembers :: "jsstring list" where
  "objectPrototypeMembers = map ustr
     [''constructor'', ''__defineGetter__'', ''__defineSetter__'', ''hasOwnProperty'',
      ''__lookupGetter__'', ''__lookupSetter__'', ''isPrototypeOf'', ''propertyIsEnumerable'',
      ''toString'', ''valueOf'', ''__proto__'', ''toLocaleString'']"

text \<open>
  \<open>clientData[key]\<close> on the snapshot, a plain object: its own property, else what it
  inherits under that name, else \<open>undefined\<close>.
\<close>

definition readProperty :: "snapshot \<Rightarrow> jsstring \<Rightarrow> recval" where
  "readProperty clientData k =
     (case clientData k of
        Some v \<Rightarrow> Val v
      | None \<Rightarrow> if k \<in> set objectPrototypeMembers then Inherited else Val Undefined)"

text \<open>
  An object made by \<open>{}\<close>: its own properties other than \<open>__proto__\<close>, its prototype, and
  its own property \<open>__proto__\<close> if it has one, which only an object without prototype can
  get. The prototype is \<open>Object.prototype\<close> at first; the accessor \<open>__proto__\<close> of
  \<open>Object.prototype\<close> can replace it by an array or remove it.
\<close>

datatype prototype = ObjectPrototype | ArrayValue "jsval list" | NoPrototype

type_synonym obj = "jsstring \<rightharpoonup> recval"

record jsobject =
  props :: obj
  proto :: prototype
  ownProto :: "recval option"

definition newObject :: jsobject where
  "newObject = \<lparr> props = Map.empty, proto = ObjectPrototype, ownProto = None \<rparr>"

text \<open>
  The setter of \<open>__proto__\<close>: an object or \<open>null\<close> becomes the prototype, any other value
  is ignored.
\<close>

fun setPrototype :: "recval \<Rightarrow> prototype \<Rightarrow> prototype" where
  "setPrototype Inherited current = ObjectPrototype"
| "setPrototype (Val Null) current = NoPrototype"
| "setPrototype (Val (Arr xs)) current = ArrayValue xs"
| "setPrototype (Val Undefined) current = current"
| "setPrototype (Val (Bool b)) current = current"
| "setPrototype (Val (Num w)) current = current"
| "setPrototype (Val (Str s)) current = current"

text \<open>
  The assignment \<open>object[k] = v\<close>. Under the name \<open>__proto__\<close> it reaches the accessor
  that the object inherits, which makes no property, unless the object has an own
  property of that name, which it writes, or no prototype, where it makes one.
  Under any other name it writes or makes an own property: what the object can inherit
  under the name, from \<open>Object.prototype\<close> or from an array, is a writable data property.
\<close>

definition putValue :: "jsstring \<Rightarrow> recval \<Rightarrow> jsobject \<Rightarrow> jsobject" where
  "putValue k v ob =
     (if k = ustr ''__proto__'' then
        (if ownProto ob = None \<and> proto ob \<noteq> NoPrototype
         then ob\<lparr>proto := setPrototype v (proto ob)\<rparr>
         else ob\<lparr>ownProto := Some v\<rparr>)
      else ob\<lparr>props := (props ob)(k \<mapsto> v)\<rparr>)"

definition ownKeys :: "jsobject \<Rightarrow> jsstring set" where
  "ownKeys ob = dom (props ob) \<union> (if ownProto ob = None then {} else {ustr ''__proto__''})"

text \<open>
  The state: the objects allocated so far, an object's address being its index; the two
  properties of the \<open>Torrent\<close> instance, \<open>this.torrentData\<close> being \<open>None\<close> as long as
  nothing was assigned to it; the calls of \<open>TorrentNotificationService.compareNewTorrentData\<close>,
  each with the addresses of its two arguments; and the messages of \<open>console.warn\<close>.
  The notifier lives in \<^verbatim>\<open>models/TorrentNotificationService\<close>, outside the model, which
  records its calls, takes them to return, and says nothing of what they do.
\<close>

record state =
  heap :: "jsobject list"
  this_torrentData :: "nat option"
  this_lastUpdated :: jsval
  notified :: "(nat \<times> nat) list"
  warnings :: "jsstring list"

definition object_at :: "state \<Rightarrow> nat \<Rightarrow> jsobject" where
  "object_at st a = (if a < length (heap st) then heap st ! a else newObject)"

text \<open>The own properties, other than \<open>__proto__\<close>, of the object at an address.\<close>

definition obj_at :: "state \<Rightarrow> nat \<Rightarrow> obj" where
  "obj_at st a = props (object_at st a)"

definition alloc :: "jsobject \<Rightarrow> state \<Rightarrow> nat \<times> state" where
  "alloc ob st = (length (heap st), st\<lparr>heap := heap st @ [ob]\<rparr>)"

definition setProperty :: "nat \<Rightarrow> jsstring \<Rightarrow> recval \<Rightarrow> state \<Rightarrow> state" where
  "setProperty a k v st = st\<lparr>heap := (heap st)[a := putValue k v (object_at st a)]\<rparr>"

text \<open>
  The getter \<open>data\<close>: \<open>Object.assign({}, this.torrentData)\<close> makes a new object and
  assigns every own property of \<open>this.torrentData\<close> to it, none when that is
  \<open>undefined\<close>. An own property \<open>__proto__\<close> of the source so reaches the accessor of the
  new object. The order of the assignments does not matter: no prototype that the
  accessor can give keeps another property from being made.
\<close>

definition data :: "state \<Rightarrow> nat \<times> state" where
  "data st =
     (let target = newObject
      in case this_torrentData st of
           None \<Rightarrow> alloc target st
         | Some t \<Rightarrow>
             (let source = object_at st t;
                  target = target\<lparr>props := props target ++ props source\<rparr>;
                  target = (case ownProto source of
                              None \<Rightarrow> target
                            | Some v \<Rightarrow> putValue (ustr ''__proto__'') v target)
              in alloc target st))"

text \<open>
  \<open>this[fnName]\<close>: the methods of the class whose name can be built as \<open>get...\<close>, each
  called with \<open>clientData\<close> alone. \<open>getClientData\<close> then reads \<open>opts.requestedData\<close> from
  an \<open>opts\<close> that is \<open>undefined\<close>, and \<open>getPeerCount\<close> calls \<open>indexOf\<close> on the snapshot
  object, which has no such method: both raise a TypeError (the object that the inner
  \<open>getClientData\<close> makes before is never reached again and is left out). \<open>None\<close> says
  that the instance has no function of that name: no name that starts with \<open>get\<close> is
  one of \<open>Object.prototype\<close>.
\<close>

definition callMethod :: "env \<Rightarrow> jsstring \<Rightarrow> snapshot \<Rightarrow> (js_error + jsval) option" where
  "callMethod env fnName clientData =
     (if fnName = ustr ''getClientData'' then Some (Inl TypeError)
      else if fnName = ustr ''getPeerCount'' then Some (Inl TypeError)
      else if fnName = ustr ''getEta'' then
        Some (getEta (numbers env) (secondsToDuration env) clientData)
      else if fnName = ustr ''getPercentComplete'' then
        Some (getPercentComplete (numbers env) clientData)
      else if fnName = ustr ''getStatus'' then
        Some (case getStatus (statusMap env) clientData of Inl e \<Rightarrow> Inl e | Inr tags \<Rightarrow> Inr (Arr tags))
      else if fnName = ustr ''getTags'' then Some (getTags clientData)
      else if fnName = ustr ''getTotalPeers'' then Some (getTotalPeers clientData)
      else if fnName = ustr ''getTotalSeeds'' then Some (getTotalSeeds clientData)
      else if fnName = ustr ''getTrackers'' then Some (getTrackers (domainName env) clientData)
      else if fnName = ustr ''getAdded'' then Some (getAdded clientData)
      else if fnName = ustr ''getCreationDate'' then Some (getCreationDate clientData)
      else None)"

text \<open>The body of the \<open>forEach\<close> callback up to the assignment: the value of one key.\<close>

definition keyData :: "env \<Rightarrow> snapshot \<Rightarrow> jsval \<Rightarrow> js_error + recval" where
  "keyData env clientData key =
     (case capitalize env key of
        Inl e \<Rightarrow> Inl e
      | Inr capitalized \<Rightarrow>
          (let fnName = ustr ''get'' @ capitalized
           in case callMethod env fnName clientData of
                Some (Inl e) \<Rightarrow> Inl e
              | Some (Inr v) \<Rightarrow> Inr (Val v)
              | None \<Rightarrow> Inr (readProperty clientData (toString (numbers env) key))))"

text \<open>
  \<open>keysToProcess.forEach\<close>: every key is computed and assigned to the object at
  \<open>torrentData\<close>. An error ends the loop and the call; it comes with the state in which
  it was raised.
\<close>

fun processKeys :: "env \<Rightarrow> snapshot \<Rightarrow> nat \<Rightarrow> jsval list \<Rightarrow> state \<Rightarrow> js_error \<times> state + state" where
  "processKeys env clientData torrentData [] st = Inr st"
| "processKeys env clientData torrentData (key # keys) st =
     (case keyData env clientData key of
        Inl e \<Rightarrow> Inl (e, st)
      | Inr v \<Rightarrow>
          processKeys env clientData torrentData keys
            (setProperty torrentData (toString (numbers env) key) v st))"

definition warning :: jsstring where
  "warning = ustr ''Torrent: requestedData mut be an array, using defaults.''"

text \<open>
  \<open>getClientData\<close> returns the address of the new record. It does not assign
  \<open>this.torrentData\<close>: its two callers do, with what it returns.
\<close>

definition getClientData ::
    "env \<Rightarrow> snapshot \<Rightarrow> opts option \<Rightarrow> state \<Rightarrow> js_error \<times> state + nat \<times> state" where
  "getClientData env clientData opts st =
     (let keysToProcess = DEFAULT_DATA_KEYS;
          (torrentData, st) = alloc newObject st
      in case opts of
           None \<Rightarrow> Inl (TypeError, st)
         | Some opts \<Rightarrow>
             (let (keysToProcess, st) =
                    (if truthy (requestedData opts) \<and> isArray (requestedData opts)
                     then (elements (requestedData opts), st)
                     else if truthy (requestedData opts)
                     then (keysToProcess, st\<lparr>warnings := warnings st @ [warning]\<rparr>)
                     else (keysToProcess, st))
              in case processKeys env clientData torrentData keysToProcess st of
                   Inl raised \<Rightarrow> Inl raised
                 | Inr st \<Rightarrow>
                     (let (previous, st) = data st;
                          st = st\<lparr>notified := notified st @ [(previous, torrentData)]\<rparr>
                      in Inr (torrentData, st))))"

text \<open>
  The constructor works on a new instance, whose two properties are not assigned yet.
  A snapshot that is \<open>None\<close> is a falsy \<open>clientData\<close>, and options that are \<open>None\<close> are
  \<open>undefined\<close>, replaced by the empty object.
\<close>

definition newInstance :: "state \<Rightarrow> state" where
  "newInstance st = st\<lparr>this_torrentData := None, this_lastUpdated := Undefined\<rparr>"

definition Torrent ::
    "env \<Rightarrow> snapshot option \<Rightarrow> opts option \<Rightarrow> state \<Rightarrow> js_error \<times> state + state" where
  "Torrent env clientData opts st =
     (let st = newInstance st
      in case clientData of
           None \<Rightarrow> Inr st
         | Some clientData \<Rightarrow>
             (let opts = (case opts of
                            None \<Rightarrow> \<lparr>currentTime = Undefined, requestedData = Undefined\<rparr>
                          | Some given \<Rightarrow> given);
                  st = st\<lparr>this_lastUpdated :=
                          (if truthy (currentTime opts) then currentTime opts else dateNow env)\<rparr>
              in case getClientData env clientData (Some opts) st of
                   Inl raised \<Rightarrow> Inl raised
                 | Inr (created, st) \<Rightarrow> Inr (st\<lparr>this_torrentData := Some created\<rparr>)))"


text \<open>The state in which a call of \<open>getClientData\<close> ends, whether it returns or raises.\<close>

definition finalState :: "js_error \<times> state + nat \<times> state \<Rightarrow> state" where
  "finalState outcome = (case outcome of Inl raised \<Rightarrow> snd raised | Inr returned \<Rightarrow> snd returned)"

subsection \<open>The field selector of the specification\<close>

definition resolvedKeys :: "opts \<Rightarrow> jsval list" where
  "resolvedKeys given = (case requestedData given of Arr keys \<Rightarrow> keys | _ \<Rightarrow> DEFAULT_DATA_KEYS)"

text \<open>
  In a state of the program, the record of the instance is an allocated object.
\<close>

definition wellFormed :: "state \<Rightarrow> bool" where
  "wellFormed st = (case this_torrentData st of None \<Rightarrow> True | Some t \<Rightarrow> t < length (heap st))"

subsection \<open>Stand-ins for what is outside, to run the theorems on\<close>

text \<open>
  The arithmetic stand-in reads a number as it is and anything else as \<open>+0\<close>, compares bit
  patterns (the order of the doubles that are not negative) and answers every operation
  with its first operand.
\<close>

definition sampleArith :: arith where
  "sampleArith = \<lparr> toNumber = (\<lambda>v. case v of Num w \<Rightarrow> w | _ \<Rightarrow> 0),
     fdiv = (\<lambda>x y. x), fmul = (\<lambda>x y. x), fsub = (\<lambda>x y. x), flt = (\<lambda>x y. x < y),
     toFixed = (\<lambda>x n. ustr ''0''), numberToString = (\<lambda>x. ustr ''0'') \<rparr>"

text \<open>
  The stand-in for \<open>capitalize\<close> puts the first letter of a string in upper case and
  raises on anything that is not a string.
\<close>

definition sampleCapitalize :: "jsval \<Rightarrow> js_error + jsstring" where
  "sampleCapitalize key =
     (case key of
        Str [] \<Rightarrow> Inr []
      | Str (c # cs) \<Rightarrow> Inr ((if 0x61 \<le> c \<and> c \<le> 0x7A then c - 0x20 else c) # cs)
      | _ \<Rightarrow> Inl TypeError)"

definition sampleEnv :: env where
  "sampleEnv = \<lparr> statusMap = sampleStatusMap, domainName = sampleExec, numbers = sampleArith,
     secondsToDuration = (\<lambda>v. Inr v), capitalize = sampleCapitalize, dateNow = Num num100 \<rparr>"

definition sampleSnapshot :: snapshot where
  "sampleSnapshot =
     [ustr ''hash'' \<mapsto> Str (ustr ''ABC''),
      ustr ''isHashChecking'' \<mapsto> Str (ustr ''0''), ustr ''isComplete'' \<mapsto> Str (ustr ''0''),
      ustr ''isOpen'' \<mapsto> Str (ustr ''1''), ustr ''state'' \<mapsto> Str (ustr ''1''),
      ustr ''uploadRate'' \<mapsto> Str (ustr ''0''), ustr ''downloadRate'' \<mapsto> Num num10,
      ustr ''bytesDone'' \<mapsto> Num num10, ustr ''sizeBytes'' \<mapsto> Num num100,
      ustr ''message'' \<mapsto> Str [], ustr ''tags'' \<mapsto> Str (ustr ''b,%41''),
      ustr ''trackers'' \<mapsto> Str (ustr ''udp://t.a.co.uk@!@x@!@udp://b.org''),
      ustr ''totalPeers'' \<mapsto> Str (ustr ''12@!@34''), ustr ''totalSeeds'' \<mapsto> Str (ustr ''3@!@''),
      ustr ''added'' \<mapsto> Str (ustr '' 0 '')]"

definition emptyState :: state where
  "emptyState = \<lparr> heap = [], this_torrentData = None, this_lastUpdated = Undefined, notified = [],
     warnings = [] \<rparr>"

definition sampleOpts :: opts where
  "sampleOpts = \<lparr> currentTime = Undefined, requestedData = Arr [Str (ustr ''hash''), Str (ustr ''tags'')] \<rparr>"

definition protoOpts :: opts where
  "protoOpts = \<lparr> currentTime = Undefined,
     requestedData = Arr [Str (ustr ''__proto__''), Str (ustr ''hash'')] \<rparr>"

section \<open>Theorems\<close>

lemma flag_of_One [simp]: "flag_of v = One \<longleftrightarrow> v = Str (ustr ''1'')"
  by (simp add: flag_of_def ustr_def)

lemma flag_of_Zero [simp]: "flag_of v = Zero \<longleftrightarrow> v = Str (ustr ''0'')"
  by (simp add: flag_of_def ustr_def)

lemma primary_tags_spec_unfold:
  "primary_tags_spec tsm h c opn s =
     (if h = One then [checking tsm]
      else if c = One \<and> opn = One \<and> s = One then [complete tsm, seeding tsm]
      else if c = One \<and> opn = One \<and> s = Zero then [paused tsm]
      else if c = One \<and> opn = Zero then [stopped tsm, complete tsm]
      else if c = Zero \<and> opn = One \<and> s = One then [downloading tsm]
      else if c = Zero \<and> opn = One \<and> s = Zero then [paused tsm]
      else if c = Zero \<and> opn = Zero then [stopped tsm]
      else [])"
  by (cases h; cases c; cases opn; cases s) simp_all

lemma chain_eq:
  "(if h = Str (ustr ''1'') then ([]::jsval list) @ [checking tsm]
    else if c = Str (ustr ''1'') \<and> opn = Str (ustr ''1'') \<and> s = Str (ustr ''1'')
      then ([] @ [complete tsm]) @ [seeding tsm]
    else if c = Str (ustr ''1'') \<and> opn = Str (ustr ''1'') \<and> s = Str (ustr ''0'')
      then [] @ [paused tsm]
    else if c = Str (ustr ''1'') \<and> opn = Str (ustr ''0'')
      then ([] @ [stopped tsm]) @ [complete tsm]
    else if c = Str (ustr ''0'') \<and> opn = Str (ustr ''1'') \<and> s = Str (ustr ''1'')
      then [] @ [downloading tsm]
    else if c = Str (ustr ''0'') \<and> opn = Str (ustr ''1'') \<and> s = Str (ustr ''0'')
      then [] @ [paused tsm]
    else if c = Str (ustr ''0'') \<and> opn = Str (ustr ''0'')
      then [] @ [stopped tsm]
    else []) = primary_tags_spec tsm (flag_of h) (flag_of c) (flag_of opn) (flag_of s)"
  by (simp add: primary_tags_spec_unfold)

lemma getStatus_unfold:
  "getStatus tsm clientData =
     (case length_truthy (field clientData ''message'') of
        Inl e \<Rightarrow> Inl e
      | Inr hasMessage \<Rightarrow>
          Inr (primary_tags_spec tsm (flag_of (field clientData ''isHashChecking''))
                 (flag_of (field clientData ''isComplete'')) (flag_of (field clientData ''isOpen''))
                 (flag_of (field clientData ''state''))
               @ trailing_tags tsm hasMessage (field clientData ''uploadRate'')
                   (field clientData ''downloadRate'')))"
  unfolding getStatus_def Let_def chain_eq trailing_tags_def
  by (simp split: sum.split)

lemma primary_tags_spec_other: "set (primary_tags_spec tsm h c opn s) \<subseteq> other_tags tsm"
  by (cases h; cases c; cases opn; cases s) (simp_all add: other_tags_def)

text \<open>
  C1, as amended. On every raw snapshot whose \<open>message\<close> is neither \<open>undefined\<close> nor
  \<open>null\<close>, \<open>getStatus\<close> goes through the seven flag cases in the order of the
  specification's table and its result starts with exactly the primary tags of the first
  matching row, in the order of that row (\<open>complete\<close> then \<open>seeding\<close>, but \<open>stopped\<close>
  then \<open>complete\<close>), or with none when no row matches; the \<open>error\<close> tag and the
  activity tag follow. On a snapshot whose \<open>message\<close> is \<open>undefined\<close> or \<open>null\<close> it
  raises a TypeError, whatever the flags are.
\<close>

theorem getStatus_primary_order:
  "(field clientData ''message'' \<noteq> Undefined \<and> field clientData ''message'' \<noteq> Null \<longrightarrow>
      (\<exists>hasMessage.
         length_truthy (field clientData ''message'') = Inr hasMessage \<and>
         getStatus tsm clientData =
           Inr (primary_tags_spec tsm (flag_of (field clientData ''isHashChecking''))
                  (flag_of (field clientData ''isComplete'')) (flag_of (field clientData ''isOpen''))
                  (flag_of (field clientData ''state''))
                @ trailing_tags tsm hasMessage (field clientData ''uploadRate'')
                    (field clientData ''downloadRate'')))) \<and>
   (field clientData ''message'' = Undefined \<or> field clientData ''message'' = Null \<longrightarrow>
      getStatus tsm clientData = Inl TypeError) \<and>
   getStatus tsm clientData =
     (case length_truthy (field clientData ''message'') of
        Inl e \<Rightarrow> Inl e
      | Inr hasMessage \<Rightarrow>
          Inr (primary_tags_spec tsm (flag_of (field clientData ''isHashChecking''))
                 (flag_of (field clientData ''isComplete'')) (flag_of (field clientData ''isOpen''))
                 (flag_of (field clientData ''state''))
               @ trailing_tags tsm hasMessage (field clientData ''uploadRate'')
                   (field clientData ''downloadRate'')))"
proof -
  have eq: "getStatus tsm clientData =
     (case length_truthy (field clientData ''message'') of
        Inl e \<Rightarrow> Inl e
      | Inr hasMessage \<Rightarrow>
          Inr (primary_tags_spec tsm (flag_of (field clientData ''isHashChecking''))
                 (flag_of (field clientData ''isComplete'')) (flag_of (field clientData ''isOpen''))
                 (flag_of (field clientData ''state''))
               @ trailing_tags tsm hasMessage (field clientData ''uploadRate'')
                   (field clientData ''downloadRate'')))"
  proof (cases "length_truthy (field clientData ''message'')")
    case (Inl e)
    then show ?thesis
      by (simp add: getStatus_def Let_def)
  next
    case (Inr hasMessage)
    have "getStatus tsm clientData =
            Inr ((if field clientData ''isHashChecking'' = Str (ustr ''1'') then [] @ [checking tsm]
                  else if field clientData ''isComplete'' = Str (ustr ''1'') \<and>
                          field clientData ''isOpen'' = Str (ustr ''1'') \<and>
                          field clientData ''state'' = Str (ustr ''1'')
                    then ([] @ [complete tsm]) @ [seeding tsm]
                  else if field clientData ''isComplete'' = Str (ustr ''1'') \<and>
                          field clientData ''isOpen'' = Str (ustr ''1'') \<and>
                          field clientData ''state'' = Str (ustr ''0'')
                    then [] @ [paused tsm]
                  else if field clientData ''isComplete'' = Str (ustr ''1'') \<and>
                          field clientData ''isOpen'' = Str (ustr ''0'')
                    then ([] @ [stopped tsm]) @ [complete tsm]
                  else if field clientData ''isComplete'' = Str (ustr ''0'') \<and>
                          field clientData ''isOpen'' = Str (ustr ''1'') \<and>
                          field clientData ''state'' = Str (ustr ''1'')
                    then [] @ [downloading tsm]
                  else if field clientData ''isComplete'' = Str (ustr ''0'') \<and>
                          field clientData ''isOpen'' = Str (ustr ''1'') \<and>
                          field clientData ''state'' = Str (ustr ''0'')
                    then [] @ [paused tsm]
                  else if field clientData ''isComplete'' = Str (ustr ''0'') \<and>
                          field clientData ''isOpen'' = Str (ustr ''0'')
                    then [] @ [stopped tsm]
                  else [])
                 @ trailing_tags tsm hasMessage (field clientData ''uploadRate'')
                     (field clientData ''downloadRate''))"
      unfolding getStatus_def Let_def trailing_tags_def using Inr by simp
    then show ?thesis
      unfolding chain_eq using Inr by simp
  qed
  have raises: "length_truthy v = Inl e \<longleftrightarrow> (v = Undefined \<or> v = Null) \<and> e = TypeError" for v e
    by (cases v) auto
  show ?thesis
  proof (cases "length_truthy (field clientData ''message'')")
    case (Inl e)
    then have "(field clientData ''message'' = Undefined \<or> field clientData ''message'' = Null) \<and>
               e = TypeError"
      by (simp only: raises)
    then show ?thesis using eq Inl by auto
  next
    case (Inr hasMessage)
    have "field clientData ''message'' \<noteq> Undefined \<and> field clientData ''message'' \<noteq> Null"
      using Inr by auto
    moreover have "getStatus tsm clientData =
           Inr (primary_tags_spec tsm (flag_of (field clientData ''isHashChecking''))
                  (flag_of (field clientData ''isComplete'')) (flag_of (field clientData ''isOpen''))
                  (flag_of (field clientData ''state''))
                @ trailing_tags tsm hasMessage (field clientData ''uploadRate'')
                    (field clientData ''downloadRate''))"
      using eq Inr by simp
    ultimately show ?thesis using eq Inr by auto
  qed
qed

lemma sampleFlags_fields:
  "field sampleFlags ''isHashChecking'' = Str (ustr ''0'')"
  "field sampleFlags ''isComplete'' = Str (ustr ''1'')"
  "field sampleFlags ''isOpen'' = Str (ustr ''0'')"
  "field sampleFlags ''state'' = Str (ustr ''0'')"
  "field sampleFlags ''uploadRate'' = Str (ustr ''0'')"
  "field sampleFlags ''downloadRate'' = Str (ustr ''0'')"
  "field sampleFlags ''message'' = Str []"
  by (simp_all add: field_def sampleFlags_def ustr_def)

lemma ustr_neq: "ustr ''1'' \<noteq> ustr ''0''" "ustr ''0'' \<noteq> ustr ''1''"
  by (simp_all add: ustr_def)

theorem getStatus_primary_order_witness:
  "field sampleFlags ''message'' \<noteq> Undefined \<and> field sampleFlags ''message'' \<noteq> Null \<and>
   getStatus sampleStatusMap sampleFlags =
     Inr [stopped sampleStatusMap, complete sampleStatusMap, inactive sampleStatusMap]"
  using getStatus_primary_order [of sampleFlags sampleStatusMap]
  by (simp add: sampleFlags_fields flag_of_def ustr_neq trailing_tags_def)

text \<open>
  C1 as stated fails: on the snapshot that holds \<open>isHashChecking\<close> \<open>"1"\<close> and no
  \<open>message\<close>, \<open>getStatus\<close> gives no tag: it raises a TypeError.
\<close>

theorem getStatus_missing_message_counterexample:
  "getStatus sampleStatusMap [ustr ''isHashChecking'' \<mapsto> Str (ustr ''1'')] = Inl TypeError"
  by (simp add: getStatus_unfold field_def ustr_def)

text \<open>
  C2. Whenever \<open>getStatus\<close> returns, the list is not empty and its last element is
  the activity tag: \<open>inactive\<close> when \<open>uploadRate\<close> and \<open>downloadRate\<close> are both
  the string \<open>"0"\<close>, else \<open>active\<close>. When the table gives the two activity tags
  values that differ from each other and from the other seven tags, that last element is
  the only activity tag of the list, so the list never holds both.
\<close>

theorem getStatus_activity_tag:
  assumes "getStatus tsm clientData = Inr tags"
  shows "tags \<noteq> [] \<and>
    last tags = (if field clientData ''uploadRate'' = Str (ustr ''0'') \<and>
                    field clientData ''downloadRate'' = Str (ustr ''0'')
                 then inactive tsm else active tsm) \<and>
    (active tsm \<noteq> inactive tsm \<and> active tsm \<notin> other_tags tsm \<and> inactive tsm \<notin> other_tags tsm
       \<longrightarrow> activity_tags tsm tags = [last tags] \<and>
           \<not> (active tsm \<in> set tags \<and> inactive tsm \<in> set tags))"
proof -
  let ?p = "primary_tags_spec tsm (flag_of (field clientData ''isHashChecking''))
                 (flag_of (field clientData ''isComplete'')) (flag_of (field clientData ''isOpen''))
                 (flag_of (field clientData ''state''))"
  let ?a = "if field clientData ''uploadRate'' = Str (ustr ''0'') \<and>
                    field clientData ''downloadRate'' = Str (ustr ''0'')
                 then inactive tsm else active tsm"
  from assms obtain hasMessage where
    tags: "tags = ?p @ (if hasMessage then [error tsm] else []) @ [?a]"
    by (auto simp: getStatus_unfold trailing_tags_def split: sum.splits)
  have nonempty: "tags \<noteq> []" and lst: "last tags = ?a"
    by (simp_all add: tags)
  have sub: "set ?p \<subseteq> other_tags tsm"
    by (rule primary_tags_spec_other)
  have err: "error tsm \<in> other_tags tsm"
    by (simp add: other_tags_def)
  have one: "activity_tags tsm tags = [last tags] \<and>
           \<not> (active tsm \<in> set tags \<and> inactive tsm \<in> set tags)"
    if d: "active tsm \<noteq> inactive tsm" "active tsm \<notin> other_tags tsm" "inactive tsm \<notin> other_tags tsm"
  proof -
    have "\<forall>t \<in> set ?p. t \<noteq> active tsm \<and> t \<noteq> inactive tsm"
      using sub d by auto
    then have f: "filter (\<lambda>t. t = active tsm \<or> t = inactive tsm) ?p = []"
      by (simp add: filter_empty_conv)
    have e: "error tsm \<noteq> active tsm" "error tsm \<noteq> inactive tsm"
      using err d by auto
    have n: "active tsm \<notin> set ?p" "inactive tsm \<notin> set ?p"
      using sub d by auto
    show ?thesis
      unfolding activity_tags_def lst unfolding tags
      using f e n d(1) by auto
  qed
  show ?thesis using nonempty lst one by blast
qed

theorem getStatus_activity_tag_witness:
  "getStatus sampleStatusMap sampleFlags =
     Inr [stopped sampleStatusMap, complete sampleStatusMap, inactive sampleStatusMap] \<and>
   active sampleStatusMap \<noteq> inactive sampleStatusMap \<and>
   active sampleStatusMap \<notin> other_tags sampleStatusMap \<and>
   inactive sampleStatusMap \<notin> other_tags sampleStatusMap \<and>
   activity_tags sampleStatusMap
     [stopped sampleStatusMap, complete sampleStatusMap, inactive sampleStatusMap] =
     [inactive sampleStatusMap]"
proof -
  have r: "getStatus sampleStatusMap sampleFlags =
     Inr [stopped sampleStatusMap, complete sampleStatusMap, inactive sampleStatusMap]"
    by (simp add: getStatus_unfold sampleFlags_fields flag_of_def ustr_neq trailing_tags_def)
  have d: "active sampleStatusMap \<noteq> inactive sampleStatusMap \<and>
   active sampleStatusMap \<notin> other_tags sampleStatusMap \<and>
   inactive sampleStatusMap \<notin> other_tags sampleStatusMap"
    by (simp add: sampleStatusMap_def other_tags_def ustr_def)
  from getStatus_activity_tag [OF r] d r show ?thesis by simp
qed


subsection \<open>The peer and seed counts\<close>

lemma indexOf_from_cases:
  "(indexOf_from pat s i = - 1 \<and> (\<forall>j\<le>length s. take (length pat) (drop j s) \<noteq> pat)) \<or>
   (\<exists>k\<le>length s. indexOf_from pat s i = int (i + k) \<and> take (length pat) (drop k s) = pat \<and>
      (\<forall>j<k. take (length pat) (drop j s) \<noteq> pat))"
proof (induction s arbitrary: i)
  case Nil
  then show ?case by auto
next
  case (Cons c cs)
  show ?case
  proof (cases "take (length pat) (c # cs) = pat")
    case True
    then have "indexOf_from pat (c # cs) i = int (i + 0) \<and> take (length pat) (drop 0 (c # cs)) = pat"
      by simp
    then show ?thesis by blast
  next
    case False
    from Cons.IH [of "Suc i"] show ?thesis
    proof
      assume a: "indexOf_from pat cs (Suc i) = - 1 \<and> (\<forall>j\<le>length cs. take (length pat) (drop j cs) \<noteq> pat)"
      have "\<forall>j\<le>length (c # cs). take (length pat) (drop j (c # cs)) \<noteq> pat"
      proof (intro allI impI)
        fix j assume "j \<le> length (c # cs)"
        then show "take (length pat) (drop j (c # cs)) \<noteq> pat"
          using a False by (cases j) auto
      qed
      with a False show ?thesis by simp
    next
      assume "\<exists>k\<le>length cs. indexOf_from pat cs (Suc i) = int (Suc i + k) \<and>
         take (length pat) (drop k cs) = pat \<and> (\<forall>j<k. take (length pat) (drop j cs) \<noteq> pat)"
      then obtain k where k: "k \<le> length cs" "indexOf_from pat cs (Suc i) = int (Suc i + k)"
         "take (length pat) (drop k cs) = pat" "\<forall>j<k. take (length pat) (drop j cs) \<noteq> pat"
        by blast
      have "\<forall>j<Suc k. take (length pat) (drop j (c # cs)) \<noteq> pat"
      proof (intro allI impI)
        fix j assume "j < Suc k"
        then show "take (length pat) (drop j (c # cs)) \<noteq> pat"
          using k(4) False by (cases j) auto
      qed
      moreover have "Suc k \<le> length (c # cs)" using k(1) by simp
      moreover have "indexOf_from pat (c # cs) i = int (i + Suc k)" using k(2) False by simp
      moreover have "take (length pat) (drop (Suc k) (c # cs)) = pat" using k(3) by simp
      ultimately show ?thesis by blast
    qed
  qed
qed

lemma occurs_iff:
  "(\<exists>post. s = pre @ pat @ post) \<longleftrightarrow>
     take (length pre) s = pre \<and> take (length pat) (drop (length pre) s) = pat"
proof
  assume "\<exists>post. s = pre @ pat @ post"
  then show "take (length pre) s = pre \<and> take (length pat) (drop (length pre) s) = pat"
    by auto
next
  assume a: "take (length pre) s = pre \<and> take (length pat) (drop (length pre) s) = pat"
  have "s = take (length pre) s @ take (length pat) (drop (length pre) s) @
              drop (length pat) (drop (length pre) s)"
    by (simp only: append_take_drop_id)
  with a have "s = pre @ pat @ drop (length pat) (drop (length pre) s)" by simp
  then show "\<exists>post. s = pre @ pat @ post" ..
qed

lemma substr_prefix: "k \<le> length s \<Longrightarrow> substr s 0 (int k) = take k s"
  by (simp add: substr_def Let_def min_def max_def)

lemma substr_negative: "substr s 0 (- 1) = []"
  by (simp add: substr_def Let_def min_def max_def)

text \<open>
  C4, as amended. On every string \<open>getPeerCount\<close> returns a string and never raises.
  When the delimiter \<open>@!@\<close> occurs in the input, the result is the part strictly
  before its first occurrence. When the delimiter does not occur, the result is the empty
  string: \<open>indexOf\<close> gives \<open>-1\<close>, and \<open>substr(0, -1)\<close> is empty.
\<close>

theorem getPeerCount_delimiter:
  "\<exists>r. getPeerCount (Str s) = Inr (Str r) \<and>
     ((\<exists>pre post. s = pre @ ustr ''@!@'' @ post) \<longrightarrow>
        (\<exists>post. s = r @ ustr ''@!@'' @ post) \<and>
        (\<forall>pre post. s = pre @ ustr ''@!@'' @ post \<longrightarrow> length r \<le> length pre)) \<and>
     ((\<nexists>pre post. s = pre @ ustr ''@!@'' @ post) \<longrightarrow> r = [])"
proof -
  let ?d = "ustr ''@!@''"
  from indexOf_from_cases [of ?d s 0] show ?thesis
  proof
    assume a: "indexOf_from ?d s 0 = - 1 \<and> (\<forall>j\<le>length s. take (length ?d) (drop j s) \<noteq> ?d)"
    have none: "\<nexists>pre post. s = pre @ ?d @ post"
    proof
      assume "\<exists>pre post. s = pre @ ?d @ post"
      then obtain pre post where p: "s = pre @ ?d @ post" by blast
      then have "take (length ?d) (drop (length pre) s) = ?d" by simp
      moreover have "length pre \<le> length s" using p by simp
      ultimately show False using a by blast
    qed
    have "getPeerCount (Str s) = Inr (Str [])"
      using a by (simp add: indexOf_def substr_negative)
    with none show ?thesis by blast
  next
    assume "\<exists>k\<le>length s. indexOf_from ?d s 0 = int (0 + k) \<and> take (length ?d) (drop k s) = ?d \<and>
      (\<forall>j<k. take (length ?d) (drop j s) \<noteq> ?d)"
    then obtain k where k: "k \<le> length s" "indexOf_from ?d s 0 = int k"
      "take (length ?d) (drop k s) = ?d" "\<forall>j<k. take (length ?d) (drop j s) \<noteq> ?d"
      by auto
    have r: "getPeerCount (Str s) = Inr (Str (take k s))"
      using k(1,2) by (simp add: indexOf_def substr_prefix)
    have len: "length (take k s) = k" using k(1) by simp
    have "take (length (take k s)) s = take k s \<and>
          take (length ?d) (drop (length (take k s)) s) = ?d"
      using k(3) len by simp
    then have ex: "\<exists>post. s = take k s @ ?d @ post"
      by (simp only: occurs_iff)
    have first: "\<forall>pre post. s = pre @ ?d @ post \<longrightarrow> length (take k s) \<le> length pre"
    proof (intro allI impI)
      fix pre post assume p: "s = pre @ ?d @ post"
      then have "take (length ?d) (drop (length pre) s) = ?d" by simp
      with k(4) have "\<not> length pre < k" by blast
      then show "length (take k s) \<le> length pre" using len by simp
    qed
    from r ex first show ?thesis by blast
  qed
qed

lemma sample_count: "ustr ''12@!@34'' = ustr ''12'' @ ustr ''@!@'' @ ustr ''34''"
  by (simp add: ustr_def)

theorem getPeerCount_delimiter_witness:
  "(\<exists>pre post. ustr ''12@!@34'' = pre @ ustr ''@!@'' @ post) \<and>
   getPeerCount (Str (ustr ''12@!@34'')) = Inr (Str (ustr ''12'')) \<and>
   (\<exists>r. getPeerCount (Str (ustr ''12@!@34'')) = Inr (Str r) \<and>
        (\<exists>post. ustr ''12@!@34'' = r @ ustr ''@!@'' @ post))"
proof -
  have occ: "\<exists>pre post. ustr ''12@!@34'' = pre @ ustr ''@!@'' @ post"
    using sample_count by blast
  have val: "getPeerCount (Str (ustr ''12@!@34'')) = Inr (Str (ustr ''12''))"
    by (simp add: ustr_def indexOf_def substr_def)
  from getPeerCount_delimiter [of "ustr ''12@!@34''"] occ val show ?thesis
    by blast
qed

text \<open>
  C4 as stated fails: without a delimiter the result is not the whole string.
\<close>

theorem getPeerCount_absent_counterexample:
  "getPeerCount (Str (ustr ''12'')) = Inr (Str []) \<and> ustr ''12'' \<noteq> []"
  by (simp add: ustr_def indexOf_def substr_def)


subsection \<open>Splitting and joining\<close>

lemma join_Cons_head: "join sep ((c # t) # ts) = c # join sep (t # ts)"
  by (cases ts) simp_all

lemma join_Nil_head: "ys \<noteq> [] \<Longrightarrow> join sep ([] # ys) = sep @ join sep ys"
  by (cases ys) simp_all

lemma split_not_Nil: "sep \<noteq> [] \<Longrightarrow> split s sep \<noteq> []"
  by (induction s sep rule: split.induct) (auto split: list.splits)

lemma join_split: "sep \<noteq> [] \<Longrightarrow> join sep (split s sep) = s"
proof (induction s sep rule: split.induct)
  case (1 sep)
  then show ?case by simp
next
  case (2 c cs sep)
  show ?case
  proof (cases "take (length sep) (c # cs) = sep")
    case True
    have ne: "split (drop (length sep) (c # cs)) sep \<noteq> []"
      using "2.prems" by (rule split_not_Nil)
    have "join sep (split (c # cs) sep) = sep @ join sep (split (drop (length sep) (c # cs)) sep)"
      using True "2.prems" ne by (simp add: join_Nil_head)
    also have "\<dots> = sep @ drop (length sep) (c # cs)"
      using "2.IH"(1) "2.prems" True by simp
    also have "\<dots> = take (length sep) (c # cs) @ drop (length sep) (c # cs)"
      using True by simp
    finally show ?thesis by (simp only: append_take_drop_id)
  next
    case False
    obtain t ts where ts: "split cs sep = t # ts"
      using split_not_Nil [OF "2.prems", of cs] by (cases "split cs sep") auto
    have "join sep (split (c # cs) sep) = c # join sep (split cs sep)"
      using False "2.prems" ts by (simp add: join_Cons_head)
    then show ?thesis using "2.IH"(2) "2.prems" False by simp
  qed
qed

lemma split_single_free: "\<forall>t\<in>set (split s [d]). d \<notin> set t"
proof (induction s "[d]" rule: split.induct)
  case 1
  then show ?case by simp
next
  case (2 c cs)
  show ?case
  proof (cases "c = d")
    case True
    then show ?thesis using "2.hyps"(1) by simp
  next
    case False
    then show ?thesis using "2.hyps"(2) by (auto split: list.splits)
  qed
qed


subsection \<open>Mapping with a callback that can raise\<close>

lemma mapE_returns_iff: "(\<exists>ys. mapE f xs = Inr ys) \<longleftrightarrow> (\<forall>x\<in>set xs. \<exists>y. f x = Inr y)"
  by (induction xs) (auto split: sum.splits)

lemma mapE_Inr_iff: "mapE f xs = Inr ys \<longleftrightarrow> list_all2 (\<lambda>x y. f x = Inr y) xs ys"
proof (induction xs arbitrary: ys)
  case Nil
  then show ?case by auto
next
  case (Cons x xs)
  show ?case
  proof (cases ys)
    case Nil
    then show ?thesis by (auto split: sum.splits)
  next
    case (Cons y ys')
    have "mapE f (x # xs) = Inr (y # ys') \<longleftrightarrow> f x = Inr y \<and> mapE f xs = Inr ys'"
      by (auto split: sum.splits)
    then show ?thesis using Cons Cons.IH [of ys'] by simp
  qed
qed

lemma mapE_Inl: "mapE f xs = Inl e \<Longrightarrow> \<exists>x\<in>set xs. f x = Inl e"
  by (induction xs) (auto split: sum.splits)

lemma decodeURIComponent_Inl: "decodeURIComponent t = Inl e \<Longrightarrow> e = URIError"
  by (auto simp: decodeURIComponent_def split: option.splits)

subsection \<open>The tag deriver\<close>

text \<open>
  C6, as amended. When the raw tags are the empty string, \<open>getTags\<close> returns the empty
  list, so never a list that holds an empty string. On any other string it splits at the
  commas (the tokens, joined again with commas, give the input, and no token holds a
  comma), sorts the tokens as they are, still encoded, and then decodes them one by one
  in that order. When every token is well-formed percent-encoding it returns the decoded
  tokens in that order; when some token is not, it raises the URIError of
  \<open>decodeURIComponent\<close>.
\<close>

theorem getTags_sorted_then_decoded:
  assumes "field clientData ''tags'' = Str s"
  shows "(s = [] \<longrightarrow> getTags clientData = Inr (Arr [])) \<and>
    (s \<noteq> [] \<longrightarrow>
       (\<exists>tokens sorted_tokens.
          tokens \<noteq> [] \<and> join (ustr '','') tokens = s \<and> (\<forall>t\<in>set tokens. 0x2C \<notin> set t) \<and>
          mset sorted_tokens = mset tokens \<and> sorted sorted_tokens \<and>
          getTags clientData =
            (case mapE decodeURIComponent sorted_tokens of
               Inl e \<Rightarrow> Inl e
             | Inr decoded \<Rightarrow> Inr (Arr (map Str decoded))) \<and>
          ((\<forall>t\<in>set tokens. \<exists>d. decodeURIComponent t = Inr d) \<longrightarrow>
             (\<exists>decoded.
                getTags clientData = Inr (Arr (map Str decoded)) \<and>
                list_all2 (\<lambda>t d. decodeURIComponent t = Inr d) sorted_tokens decoded)) \<and>
          ((\<exists>t\<in>set tokens. decodeURIComponent t = Inl URIError) \<longrightarrow>
             getTags clientData = Inl URIError)))"
proof -
  have comma: "ustr '','' = [0x2C]"
    by (simp add: ustr_def)
  let ?tokens = "split s (ustr '','')"
  let ?sorted = "sort ?tokens"
  have 1: "?tokens \<noteq> []"
    by (rule split_not_Nil) (simp add: comma)
  have 2: "join (ustr '','') ?tokens = s"
    by (rule join_split) (simp add: comma)
  have 3: "\<forall>t\<in>set ?tokens. 0x2C \<notin> set t"
    unfolding comma by (rule split_single_free)
  have 4: "mset ?sorted = mset ?tokens" "sorted ?sorted"
    by simp_all
  have 5: "getTags clientData =
            (case mapE decodeURIComponent ?sorted of
               Inl e \<Rightarrow> Inl e
             | Inr decoded \<Rightarrow> Inr (Arr (map Str decoded)))" if "s \<noteq> []"
    using assms that by (simp add: getTags_def)
  have 6: "\<exists>decoded. getTags clientData = Inr (Arr (map Str decoded)) \<and>
             list_all2 (\<lambda>t d. decodeURIComponent t = Inr d) ?sorted decoded"
    if ne: "s \<noteq> []" and all: "\<forall>t\<in>set ?tokens. \<exists>d. decodeURIComponent t = Inr d"
  proof -
    have "\<forall>t\<in>set ?sorted. \<exists>d. decodeURIComponent t = Inr d"
      using all by simp
    then obtain decoded where d: "mapE decodeURIComponent ?sorted = Inr decoded"
      using mapE_returns_iff [of decodeURIComponent ?sorted] by blast
    then have "list_all2 (\<lambda>t d. decodeURIComponent t = Inr d) ?sorted decoded"
      by (simp only: mapE_Inr_iff)
    moreover have "getTags clientData = Inr (Arr (map Str decoded))"
      using 5 [OF ne] d by simp
    ultimately show ?thesis by blast
  qed
  have 7: "getTags clientData = Inl URIError"
    if ne: "s \<noteq> []" and bad: "\<exists>t\<in>set ?tokens. decodeURIComponent t = Inl URIError"
  proof (cases "mapE decodeURIComponent ?sorted")
    case (Inl e)
    then obtain t where "decodeURIComponent t = Inl e"
      using mapE_Inl by blast
    then have "e = URIError"
      by (rule decodeURIComponent_Inl)
    then show ?thesis using 5 [OF ne] Inl by simp
  next
    case (Inr decoded)
    then have "\<forall>t\<in>set ?sorted. \<exists>d. decodeURIComponent t = Inr d"
      using mapE_returns_iff [of decodeURIComponent ?sorted] by blast
    then show ?thesis using bad by auto
  qed
  have 8: "s = [] \<Longrightarrow> getTags clientData = Inr (Arr [])"
    using assms by (simp add: getTags_def)
  show ?thesis
  proof (intro conjI impI)
    assume "s = []"
    then show "getTags clientData = Inr (Arr [])" by (rule 8)
  next
    assume ne: "s \<noteq> []"
    show "\<exists>tokens sorted_tokens.
          tokens \<noteq> [] \<and> join (ustr '','') tokens = s \<and> (\<forall>t\<in>set tokens. 0x2C \<notin> set t) \<and>
          mset sorted_tokens = mset tokens \<and> sorted sorted_tokens \<and>
          getTags clientData =
            (case mapE decodeURIComponent sorted_tokens of
               Inl e \<Rightarrow> Inl e
             | Inr decoded \<Rightarrow> Inr (Arr (map Str decoded))) \<and>
          ((\<forall>t\<in>set tokens. \<exists>d. decodeURIComponent t = Inr d) \<longrightarrow>
             (\<exists>decoded.
                getTags clientData = Inr (Arr (map Str decoded)) \<and>
                list_all2 (\<lambda>t d. decodeURIComponent t = Inr d) sorted_tokens decoded)) \<and>
          ((\<exists>t\<in>set tokens. decodeURIComponent t = Inl URIError) \<longrightarrow>
             getTags clientData = Inl URIError)"
      using 1 2 3 4 5 [OF ne] 6 [OF ne] 7 [OF ne]
      by (intro exI [of _ ?tokens] exI [of _ ?sorted]) blast
  qed
qed

lemma sampleTags_field: "field sampleTags ''tags'' = Str (ustr ''b,%41'')"
  by (simp add: sampleTags_def field_def)

lemma sampleTags_value: "getTags sampleTags = Inr (Arr [Str (ustr ''A''), Str (ustr ''b'')])"
  by (simp add: getTags_def sampleTags_field ustr_def decodeURIComponent_def hexDigit_def utf16_def)

theorem getTags_sorted_then_decoded_witness:
  "field sampleTags ''tags'' = Str (ustr ''b,%41'') \<and> ustr ''b,%41'' \<noteq> [] \<and>
   getTags sampleTags = Inr (Arr [Str (ustr ''A''), Str (ustr ''b'')]) \<and>
   (\<exists>tokens sorted_tokens.
      join (ustr '','') tokens = ustr ''b,%41'' \<and> sorted sorted_tokens \<and>
      mset sorted_tokens = mset tokens \<and>
      getTags sampleTags =
        (case mapE decodeURIComponent sorted_tokens of
           Inl e \<Rightarrow> Inl e
         | Inr decoded \<Rightarrow> Inr (Arr (map Str decoded))))"
proof -
  have ne: "ustr ''b,%41'' \<noteq> []"
    by (simp add: ustr_def)
  from getTags_sorted_then_decoded [OF sampleTags_field] ne sampleTags_field sampleTags_value
  show ?thesis by blast
qed

text \<open>
  C6 as stated fails: on the raw tags \<open>ok,%zz\<close> \<open>getTags\<close> returns no list, it raises
  a URIError.
\<close>

theorem getTags_malformed_token_counterexample:
  "getTags [ustr ''tags'' \<mapsto> Str (ustr ''ok,%zz'')] = Inl URIError"
  by (simp add: getTags_def field_def ustr_def decodeURIComponent_def hexDigit_def)


subsection \<open>The tracker deriver\<close>

lemma slice_negative: "0 < n \<Longrightarrow> slice xs (- int n) = rightmost n xs"
  by (auto simp: slice_def rightmost_def Let_def max_def nat_diff_distrib')

lemma slice_kept:
  "slice labels
     ((if int (length labels) > 2 then
         (if length (labels ! nat (int (length labels) - 2)) \<le> 3 then 2 + 1 else 2)
       else (2::int)) * - 1) = rightmost (keptLabels labels) labels"
proof (cases "length labels > 2 \<and> length (labels ! (length labels - 2)) \<le> 3")
  case True
  then have i: "nat (int (length labels) - 2) = length labels - 2"
    by (simp add: nat_diff_distrib')
  have "slice labels (- int 3) = rightmost 3 labels"
    by (rule slice_negative) simp
  then show ?thesis using True i by (simp add: keptLabels_def)
next
  case False
  have i: "nat (int (length labels) - 2) = length labels - 2"
    by (simp add: nat_diff_distrib')
  have "slice labels (- int 2) = rightmost 2 labels"
    by (rule slice_negative) simp
  then show ?thesis using False i by (auto simp: keptLabels_def)
qed

lemma pushTrackerDomain_eq:
  "pushTrackerDomain exec acc tracker =
     acc @ (case hostname exec tracker of None \<Rightarrow> [] | Some h \<Rightarrow> [registrableDomain h])"
proof (cases "exec tracker")
  case None
  then show ?thesis by (simp add: pushTrackerDomain_def hostname_def)
next
  case (Some groups)
  show ?thesis
  proof (cases "hostname exec tracker")
    case None
    then show ?thesis using Some
      by (auto simp: pushTrackerDomain_def hostname_def split: list.splits option.splits if_splits)
  next
    case (Some h)
    then have g: "1 < length groups" "groups ! 1 = Some h" "h \<noteq> []"
      using \<open>exec tracker = Some groups\<close>
      by (auto simp: hostname_def split: list.splits option.splits if_splits)
    have "pushTrackerDomain exec acc tracker =
            acc @ [join (ustr ''.'') (rightmost (keptLabels (split h (ustr ''.''))) (split h (ustr ''.'')))]"
      unfolding pushTrackerDomain_def Let_def slice_kept
      using g \<open>exec tracker = Some groups\<close> by simp
    then show ?thesis using Some
      by (simp add: registrableDomain_def Let_def)
  qed
qed

lemma foldl_pushTrackerDomain:
  "foldl (pushTrackerDomain exec) acc trackers =
     acc @ List.map_filter (\<lambda>t. map_option registrableDomain (hostname exec t)) trackers"
proof (induction trackers arbitrary: acc)
  case Nil
  then show ?case by (simp add: List.map_filter_simps)
next
  case (Cons t ts)
  then show ?case
    by (simp add: pushTrackerDomain_eq List.map_filter_simps split: option.splits)
qed

text \<open>
  C7. On every raw trackers string \<open>getTrackers\<close> splits at the delimiter \<open>@!@\<close>,
  skips the entries in which the pattern captures no host name, and turns every other
  entry into the rightmost two labels of its host name, or the rightmost three when the
  host name has more than two labels and the label at position \<open>length - 2\<close> has at
  most three characters. The results come in the order of the entries, one per matched
  entry, neither sorted nor de-duplicated.
\<close>

theorem getTrackers_registrable_domains:
  assumes "field clientData ''trackers'' = Str s"
  shows "getTrackers exec clientData =
     Inr (Arr (map Str (List.map_filter (\<lambda>t. map_option registrableDomain (hostname exec t))
                          (split s (ustr ''@!@'')))))"
  using assms by (simp add: getTrackers_def foldl_pushTrackerDomain)

lemma sampleTrackers_field:
  "field sampleTrackers ''trackers'' = Str (ustr ''udp://t.a.co.uk@!@x@!@udp://b.org'')"
  by (simp add: sampleTrackers_def field_def)

theorem getTrackers_registrable_domains_witness:
  "field sampleTrackers ''trackers'' = Str (ustr ''udp://t.a.co.uk@!@x@!@udp://b.org'') \<and>
   getTrackers sampleExec sampleTrackers = Inr (Arr [Str (ustr ''a.co.uk''), Str (ustr ''b.org'')])"
  using getTrackers_registrable_domains [OF sampleTrackers_field, of sampleExec] sampleTrackers_field
  by (simp add: ustr_def List.map_filter_simps hostname_def sampleExec_def registrableDomain_def
      keptLabels_def rightmost_def)


subsection \<open>The record builder\<close>

lemma setProperty_simps [simp]:
  "length (heap (setProperty a k v st)) = length (heap st)"
  "this_torrentData (setProperty a k v st) = this_torrentData st"
  "this_lastUpdated (setProperty a k v st) = this_lastUpdated st"
  "notified (setProperty a k v st) = notified st"
  "warnings (setProperty a k v st) = warnings st"
  by (simp_all add: setProperty_def)

lemma object_at_setProperty:
  "object_at (setProperty a k v st) b =
     (if b = a \<and> a < length (heap st) then putValue k v (object_at st a) else object_at st b)"
  by (simp add: setProperty_def object_at_def)

lemma props_putValue:
  "dom (props (putValue k v ob)) = dom (props ob) \<union> ({k} - {ustr ''__proto__''})"
  by (auto simp: putValue_def)

lemma ownKeys_putValue: "ownKeys (putValue k v ob) \<subseteq> ownKeys ob \<union> {k}"
  by (auto simp: putValue_def ownKeys_def split: if_splits)

lemma processKeys_frame:
  "processKeys env clientData a keys st = Inr st' \<Longrightarrow>
     length (heap st') = length (heap st) \<and> this_torrentData st' = this_torrentData st \<and>
     this_lastUpdated st' = this_lastUpdated st \<and> notified st' = notified st \<and>
     warnings st' = warnings st \<and> (\<forall>b. b \<noteq> a \<longrightarrow> object_at st' b = object_at st b)"
proof (induction keys arbitrary: st)
  case Nil
  then show ?case by simp
next
  case (Cons key keys)
  then obtain v where v: "keyData env clientData key = Inr v"
    and rest: "processKeys env clientData a keys
                 (setProperty a (toString (numbers env) key) v st) = Inr st'"
    by (auto split: sum.splits)
  from Cons.IH [OF rest] show ?case
    by (simp add: object_at_setProperty)
qed

lemma processKeys_raised:
  "processKeys env clientData a keys st = Inl (e, st') \<Longrightarrow>
     warnings st' = warnings st \<and> notified st' = notified st \<and>
     this_torrentData st' = this_torrentData st"
proof (induction keys arbitrary: st)
  case Nil
  then show ?case by simp
next
  case (Cons key keys)
  show ?case
  proof (cases "keyData env clientData key")
    case (Inl x)
    then show ?thesis using Cons.prems by simp
  next
    case (Inr v)
    then have "processKeys env clientData a keys
                 (setProperty a (toString (numbers env) key) v st) = Inl (e, st')"
      using Cons.prems by simp
    from Cons.IH [OF this] show ?thesis by simp
  qed
qed

lemma processKeys_keys:
  "processKeys env clientData a keys st = Inr st' \<Longrightarrow> a < length (heap st) \<Longrightarrow>
     dom (obj_at st' a) =
       dom (obj_at st a) \<union> (toString (numbers env) ` set keys - {ustr ''__proto__''}) \<and>
     ownKeys (object_at st' a) \<subseteq> ownKeys (object_at st a) \<union> toString (numbers env) ` set keys"
proof (induction keys arbitrary: st)
  case Nil
  then show ?case by simp
next
  case (Cons key keys)
  then obtain v where v: "keyData env clientData key = Inr v"
    and rest: "processKeys env clientData a keys
                 (setProperty a (toString (numbers env) key) v st) = Inr st'"
    by (auto split: sum.splits)
  let ?k = "toString (numbers env) key"
  let ?st1 = "setProperty a ?k v st"
  have lt: "a < length (heap ?st1)"
    using Cons.prems(2) by simp
  have o: "object_at ?st1 a = putValue ?k v (object_at st a)"
    using Cons.prems(2) by (simp add: object_at_setProperty)
  have d: "dom (obj_at ?st1 a) = dom (obj_at st a) \<union> ({?k} - {ustr ''__proto__''})"
    unfolding obj_at_def o by (rule props_putValue)
  have k: "ownKeys (object_at ?st1 a) \<subseteq> ownKeys (object_at st a) \<union> {?k}"
    unfolding o by (rule ownKeys_putValue)
  from Cons.IH [OF rest lt] d k show ?case by auto
qed

lemma selected_keys:
  "(if truthy (requestedData given) \<and> isArray (requestedData given)
    then elements (requestedData given) else DEFAULT_DATA_KEYS) = resolvedKeys given"
  by (cases "requestedData given") (simp_all add: resolvedKeys_def)

lemma getClientData_run:
  "getClientData env clientData (Some given) st =
     (case processKeys env clientData (length (heap st)) (resolvedKeys given)
             (st\<lparr>heap := heap st @ [newObject],
                 warnings := warnings st @
                   (if truthy (requestedData given) \<and> \<not> isArray (requestedData given)
                    then [warning] else [])\<rparr>) of
        Inl raised \<Rightarrow> Inl raised
      | Inr st2 \<Rightarrow>
          Inr (length (heap st),
               (snd (data st2))\<lparr>notified := notified (snd (data st2)) @
                                   [(fst (data st2), length (heap st))]\<rparr>))"
proof (cases "truthy (requestedData given) \<and> isArray (requestedData given)")
  case True
  then have k: "elements (requestedData given) = resolvedKeys given"
    using selected_keys [of given] by simp
  show ?thesis
    using True by (simp add: getClientData_def alloc_def Let_def k split_beta split: sum.splits)
next
  case False
  then have k: "DEFAULT_DATA_KEYS = resolvedKeys given"
    using selected_keys [of given] by (auto split: if_splits)
  show ?thesis
  proof (cases "truthy (requestedData given)")
    case True
    with False have "\<not> isArray (requestedData given)" by simp
    then show ?thesis
      using True by (simp add: getClientData_def alloc_def Let_def k split_beta split: sum.splits)
  next
    case False
    then show ?thesis
      by (simp add: getClientData_def alloc_def Let_def k split_beta split: sum.splits)
  qed
qed

lemma processKeys_returns_iff:
  "(\<exists>st'. processKeys env clientData a keys st = Inr st') \<longleftrightarrow>
     (\<forall>key\<in>set keys. \<exists>v. keyData env clientData key = Inr v)"
proof (induction keys arbitrary: st)
  case Nil
  then show ?case by simp
next
  case (Cons key keys)
  show ?case
  proof (cases "keyData env clientData key")
    case (Inl e)
    then show ?thesis by auto
  next
    case (Inr v)
    then show ?thesis
      using Cons.IH [of "setProperty a (toString (numbers env) key) v st"] by simp
  qed
qed

lemma getClientData_returns_iff:
  "(\<exists>created st'. getClientData env clientData (Some given) st = Inr (created, st')) \<longleftrightarrow>
     (\<forall>key\<in>set (resolvedKeys given). \<exists>v. keyData env clientData key = Inr v)"
proof -
  let ?st1 = "st\<lparr>heap := heap st @ [newObject],
                 warnings := warnings st @
                   (if truthy (requestedData given) \<and> \<not> isArray (requestedData given)
                    then [warning] else [])\<rparr>"
  have "(\<exists>created st'. getClientData env clientData (Some given) st = Inr (created, st')) \<longleftrightarrow>
        (\<exists>st2. processKeys env clientData (length (heap st)) (resolvedKeys given) ?st1 = Inr st2)"
    unfolding getClientData_run by (auto split: sum.splits)
  then show ?thesis
    by (simp only: processKeys_returns_iff)
qed

lemma getClientData_warnings:
  "warnings (finalState (getClientData env clientData (Some given) st)) =
     warnings st @
       (if truthy (requestedData given) \<and> \<not> isArray (requestedData given) then [warning] else [])"
proof -
  let ?w = "warnings st @
       (if truthy (requestedData given) \<and> \<not> isArray (requestedData given) then [warning] else [])"
  let ?st1 = "st\<lparr>heap := heap st @ [newObject], warnings := ?w\<rparr>"
  show ?thesis
  proof (cases "processKeys env clientData (length (heap st)) (resolvedKeys given) ?st1")
    case (Inl raised)
    obtain e st' where r: "raised = (e, st')" by (cases raised)
    from processKeys_raised [OF Inl [unfolded r]] have "warnings st' = ?w" by simp
    then show ?thesis
      unfolding getClientData_run using Inl r by (simp add: finalState_def)
  next
    case (Inr st2)
    from processKeys_frame [OF Inr] have "warnings st2 = ?w" by simp
    then show ?thesis
      unfolding getClientData_run using Inr
      by (simp add: finalState_def data_def alloc_def Let_def split: option.splits)
  qed
qed

lemma props_putValue_proto [simp]: "props (putValue (ustr ''__proto__'') v ob) = props ob"
  by (simp add: putValue_def)

lemma data_effect:
  "fst (data st) = length (heap st)"
  "length (heap (snd (data st))) = length (heap st) + 1"
  "take (length (heap st)) (heap (snd (data st))) = heap st"
  "props (heap (snd (data st)) ! length (heap st)) =
     (case this_torrentData st of None \<Rightarrow> Map.empty | Some t \<Rightarrow> obj_at st t)"
  "notified (snd (data st)) = notified st"
  "warnings (snd (data st)) = warnings st"
  "this_torrentData (snd (data st)) = this_torrentData st"
  "this_lastUpdated (snd (data st)) = this_lastUpdated st"
  by (simp_all add: data_def alloc_def Let_def obj_at_def newObject_def
      split: option.splits)

lemma object_at_heap:
  "b < length (heap st) \<Longrightarrow> take (length (heap st)) (heap st') = heap st \<Longrightarrow>
     length (heap st) \<le> length (heap st') \<Longrightarrow> object_at st' b = object_at st b"
proof -
  assume b: "b < length (heap st)" and t: "take (length (heap st)) (heap st') = heap st"
    and l: "length (heap st) \<le> length (heap st')"
  have "heap st' ! b = take (length (heap st)) (heap st') ! b"
    using b by simp
  then show ?thesis
    using b l t by (simp add: object_at_def)
qed

lemma getClientData_effect:
  assumes "getClientData env clientData (Some given) st = Inr (created, st')"
  shows "created = length (heap st)"
    and "length (heap st') = length (heap st) + 2"
    and "dom (obj_at st' created) =
           toString (numbers env) ` set (resolvedKeys given) - {ustr ''__proto__''}"
    and "ownKeys (object_at st' created) \<subseteq> toString (numbers env) ` set (resolvedKeys given)"
    and "notified st' = notified st @ [(length (heap st) + 1, created)]"
    and "this_torrentData st' = this_torrentData st"
    and "this_lastUpdated st' = this_lastUpdated st"
    and "wellFormed st \<Longrightarrow>
           obj_at st' (length (heap st) + 1) =
             (case this_torrentData st of None \<Rightarrow> Map.empty | Some t \<Rightarrow> obj_at st t)"
    and "\<And>b. b < length (heap st) \<Longrightarrow> obj_at st' b = obj_at st b"
proof -
  let ?w = "warnings st @
    (if truthy (requestedData given) \<and> \<not> isArray (requestedData given) then [warning] else [])"
  let ?st1 = "st\<lparr>heap := heap st @ [newObject], warnings := ?w\<rparr>"
  from assms obtain st2 where
    p: "processKeys env clientData (length (heap st)) (resolvedKeys given) ?st1 = Inr st2" and
    c: "created = length (heap st)" and
    e: "st' = (snd (data st2))\<lparr>notified := notified (snd (data st2)) @
                                   [(fst (data st2), length (heap st))]\<rparr>"
    unfolding getClientData_run by (auto split: sum.splits)
  note f = processKeys_frame [OF p]
  have len2: "length (heap st2) = length (heap st) + 1"
    using f by simp
  have lt: "length (heap st) < length (heap ?st1)"
    by simp
  have new1: "object_at ?st1 (length (heap st)) = newObject"
    by (simp add: object_at_def)
  have old1: "object_at ?st1 b = object_at st b" if "b < length (heap st)" for b
    using that by (simp add: object_at_def nth_append)
  have old2: "object_at st2 b = object_at st b" if "b < length (heap st)" for b
    using f that old1 [OF that] by simp
  have heap': "heap st' = heap (snd (data st2))"
    unfolding e by simp
  have keep: "object_at st' b = object_at st2 b" if "b < length (heap st2)" for b
  proof (rule object_at_heap [OF that])
    show "take (length (heap st2)) (heap st') = heap st2"
      unfolding heap' by (rule data_effect(3))
    show "length (heap st2) \<le> length (heap st')"
      unfolding heap' by (simp add: data_effect(2))
  qed
  note k = processKeys_keys [OF p lt]
  have at2: "dom (obj_at st2 (length (heap st))) =
               toString (numbers env) ` set (resolvedKeys given) - {ustr ''__proto__''}"
    using k new1 by (simp add: obj_at_def newObject_def)
  have keys2: "ownKeys (object_at st2 (length (heap st))) \<subseteq>
                 toString (numbers env) ` set (resolvedKeys given)"
    using k new1 by (simp add: ownKeys_def newObject_def)
  have same: "object_at st' (length (heap st)) = object_at st2 (length (heap st))"
    by (rule keep) (simp add: len2)
  show "created = length (heap st)" by (rule c)
  show "length (heap st') = length (heap st) + 2"
    unfolding heap' by (simp add: data_effect(2) len2)
  show "dom (obj_at st' created) =
          toString (numbers env) ` set (resolvedKeys given) - {ustr ''__proto__''}"
    using at2 same unfolding c obj_at_def by simp
  show "ownKeys (object_at st' created) \<subseteq> toString (numbers env) ` set (resolvedKeys given)"
    using keys2 same unfolding c by simp
  show "notified st' = notified st @ [(length (heap st) + 1, created)]"
    unfolding e c using f by (simp add: data_effect len2)
  show "this_torrentData st' = this_torrentData st"
    unfolding e using f by (simp add: data_effect)
  show "this_lastUpdated st' = this_lastUpdated st"
    unfolding e using f by (simp add: data_effect)
  show "obj_at st' b = obj_at st b" if "b < length (heap st)" for b
  proof -
    have "b < length (heap st2)" using that len2 by simp
    from keep [OF this] old2 [OF that] show ?thesis
      by (simp add: obj_at_def)
  qed
  show "obj_at st' (length (heap st) + 1) =
          (case this_torrentData st of None \<Rightarrow> Map.empty | Some t \<Rightarrow> obj_at st t)"
    if wf: "wellFormed st"
  proof -
    have t2: "this_torrentData st2 = this_torrentData st"
      using f by simp
    have src: "(case this_torrentData st2 of None \<Rightarrow> Map.empty | Some t \<Rightarrow> obj_at st2 t) =
               (case this_torrentData st of None \<Rightarrow> Map.empty | Some t \<Rightarrow> obj_at st t)"
      using wf old2 unfolding t2 wellFormed_def obj_at_def by (auto split: option.splits)
    have "length (heap st2) < length (heap st')"
      unfolding heap' by (simp add: data_effect(2))
    then have "obj_at st' (length (heap st2)) = props (heap (snd (data st2)) ! length (heap st2))"
      unfolding obj_at_def object_at_def heap' by simp
    also have "\<dots> = (case this_torrentData st2 of None \<Rightarrow> Map.empty | Some t \<Rightarrow> obj_at st2 t)"
      by (rule data_effect(4))
    also note src
    finally show ?thesis
      unfolding len2 by simp
  qed
qed


subsection \<open>The constructor and the update\<close>

lemma newInstance_simps [simp]:
  "heap (newInstance st) = heap st" "this_torrentData (newInstance st) = None"
  "notified (newInstance st) = notified st" "warnings (newInstance st) = warnings st"
  by (simp_all add: newInstance_def)

lemma Torrent_run:
  "Torrent env (Some clientData) (Some given) st =
     (case getClientData env clientData (Some given)
             ((newInstance st)\<lparr>this_lastUpdated :=
                (if truthy (currentTime given) then currentTime given else dateNow env)\<rparr>) of
        Inl raised \<Rightarrow> Inl raised
      | Inr returned \<Rightarrow> Inr ((snd returned)\<lparr>this_torrentData := Some (fst returned)\<rparr>))"
  by (simp add: Torrent_def Let_def split_beta split: sum.splits)

lemma Torrent_None:
  "Torrent env clientData None st =
     Torrent env clientData (Some \<lparr>currentTime = Undefined, requestedData = Undefined\<rparr>) st"
  by (cases clientData) (simp_all add: Torrent_def Let_def)




lemma obj_at_fields [simp]:
  "obj_at (st\<lparr>this_torrentData := t\<rparr>) a = obj_at st a"
  "obj_at (st\<lparr>this_lastUpdated := u\<rparr>) a = obj_at st a"
  "obj_at (newInstance st) a = obj_at st a"
  by (simp_all add: obj_at_def object_at_def newInstance_def)

lemma wellFormed_lastUpdated [simp]:
  "wellFormed (st\<lparr>this_lastUpdated := u\<rparr>) = wellFormed st"
  by (simp add: wellFormed_def split: option.splits)

lemma Torrent_returns_iff:
  "(\<exists>st'. Torrent env (Some clientData) (Some given) st = Inr st') \<longleftrightarrow>
     (\<forall>key\<in>set (resolvedKeys given). \<exists>v. keyData env clientData key = Inr v)"
proof -
  let ?st1 = "(newInstance st)\<lparr>this_lastUpdated :=
              (if truthy (currentTime given) then currentTime given else dateNow env)\<rparr>"
  have "(\<exists>st'. Torrent env (Some clientData) (Some given) st = Inr st') \<longleftrightarrow>
        (\<exists>created st2. getClientData env clientData (Some given) ?st1 = Inr (created, st2))"
    unfolding Torrent_run by (auto split: sum.splits)
  then show ?thesis
    by (simp only: getClientData_returns_iff)
qed



lemma isl_iff: "isl outcome \<longleftrightarrow> (\<nexists>returned. outcome = Inr returned)"
  by (cases outcome) simp_all

subsection \<open>The sample runs\<close>

lemmas keyData_run = keyData_def callMethod_def readProperty_def objectPrototypeMembers_def
  sampleEnv_def ustr_def sampleSnapshot_def
  sampleCapitalize_def getEta_def getPercentComplete_def sampleArith_def getStatus_def
  getTags_def getTotalPeers_def getTotalSeeds_def getTrackers_def getAdded_def getCreationDate_def
  cleanUpDate_def field_def indexOf_def substr_def decodeURIComponent_def hexDigit_def utf16_def
  sampleExec_def pushTrackerDomain_def slice_def trim_def isWhiteSpace_def num0_def num10_def num100_def
  sampleStatusMap_def Let_def

lemma sample_default_keys:
  "\<forall>key\<in>set DEFAULT_DATA_KEYS. \<exists>v. keyData sampleEnv sampleSnapshot key = Inr v"
  by (simp add: DEFAULT_DATA_KEYS_def keyData_run)

lemma sampleOpts_keys:
  "\<forall>key\<in>set (resolvedKeys sampleOpts). \<exists>v. keyData sampleEnv sampleSnapshot key = Inr v"
  by (simp add: resolvedKeys_def sampleOpts_def keyData_run)

lemma empty_snapshot_status: "keyData sampleEnv Map.empty (Str (ustr ''status'')) = Inl TypeError"
  by (simp add: keyData_run)

lemma status_default_key: "Str (ustr ''status'') \<in> set DEFAULT_DATA_KEYS"
  by (simp add: DEFAULT_DATA_KEYS_def)

lemma length_DEFAULT_DATA_KEYS: "length DEFAULT_DATA_KEYS = 30"
  by (simp add: DEFAULT_DATA_KEYS_def)


subsection \<open>Which snapshots the derivers accept\<close>

lemma getStatus_returns_iff:
  "(\<exists>v. getStatus tsm clientData = Inr v) \<longleftrightarrow>
     field clientData ''message'' \<noteq> Undefined \<and> field clientData ''message'' \<noteq> Null"
  by (cases "field clientData ''message''") (simp_all add: getStatus_unfold)

lemma getTags_of_returns_iff:
  "(\<exists>v. getTags_of x = Inr v) \<longleftrightarrow>
     (\<exists>s. x = Str s \<and>
        (s \<noteq> [] \<longrightarrow> (\<forall>t\<in>set (split s (ustr '','')). \<exists>d. decodeURIComponent t = Inr d)))"
proof (cases x)
  case (Str s)
  have "(\<exists>v. (case mapE decodeURIComponent (sort (split s (ustr '',''))) of
                Inl e \<Rightarrow> Inl e | Inr decoded \<Rightarrow> Inr (Arr (map Str decoded))) = Inr v) \<longleftrightarrow>
        (\<exists>ys. mapE decodeURIComponent (sort (split s (ustr '',''))) = Inr ys)"
    by (auto split: sum.splits)
  also have "\<dots> \<longleftrightarrow> (\<forall>t\<in>set (split s (ustr '','')). \<exists>d. decodeURIComponent t = Inr d)"
    by (simp add: mapE_returns_iff)
  finally show ?thesis using Str by simp
qed simp_all

lemma getPeerCount_returns_iff: "(\<exists>v. getPeerCount x = Inr v) \<longleftrightarrow> (\<exists>s. x = Str s)"
  by (cases x) (simp_all add: Let_def)

lemma getTrackers_returns_iff:
  "(\<exists>v. getTrackers exec clientData = Inr v) \<longleftrightarrow> (\<exists>s. field clientData ''trackers'' = Str s)"
  by (cases "field clientData ''trackers''") (simp_all add: getTrackers_def Let_def)

lemma cleanUpDate_returns_iff:
  "(\<exists>v. cleanUpDate x = Inr v) \<longleftrightarrow> (\<not> truthy x \<or> (\<exists>s. x = Str s))"
  by (cases x) (simp_all add: cleanUpDate_def Let_def)

lemma getPercentComplete_returns: "\<exists>v. getPercentComplete ar clientData = Inr v"
  by (simp add: getPercentComplete_def Let_def)

lemma getEta_returns_iff:
  "(\<exists>v. getEta ar fmt clientData = Inr v) \<longleftrightarrow>
     (flt ar num0 (toNumber ar (field clientData ''downloadRate'')) \<longrightarrow>
        (\<exists>v. fmt (Num (fdiv ar (fsub ar (toNumber ar (field clientData ''sizeBytes''))
                                     (toNumber ar (field clientData ''bytesDone'')))
                             (toNumber ar (field clientData ''downloadRate'')))) = Inr v))"
  by (simp add: getEta_def Let_def)

text \<open>
  C3, as amended. Every field deriver runs to completion exactly when its raw field has
  the type it is used at: \<open>getStatus\<close> when \<open>message\<close> is neither \<open>undefined\<close> nor
  \<open>null\<close>; \<open>getTags\<close> when \<open>tags\<close> is a string whose tokens are well-formed
  percent-encoding; \<open>getTrackers\<close>, \<open>getTotalPeers\<close> and \<open>getTotalSeeds\<close> when their field
  is a string; \<open>getAdded\<close> and \<open>getCreationDate\<close> when their field is falsy, a missing one
  included, or a string; \<open>getPercentComplete\<close> always; \<open>getEta\<close> whenever the duration
  formatter returns. In every other case the deriver raises. Record construction runs to
  completion exactly when the value of every key of the resolved field list is computed
  without raising.
\<close>

theorem derivers_return_exactly:
  "((\<exists>v. getStatus tsm clientData = Inr v) \<longleftrightarrow>
      field clientData ''message'' \<noteq> Undefined \<and> field clientData ''message'' \<noteq> Null) \<and>
   ((\<exists>v. getTags clientData = Inr v) \<longleftrightarrow>
      (\<exists>s. field clientData ''tags'' = Str s \<and>
         (s \<noteq> [] \<longrightarrow> (\<forall>t\<in>set (split s (ustr '','')). \<exists>d. decodeURIComponent t = Inr d)))) \<and>
   ((\<exists>v. getTrackers exec clientData = Inr v) \<longleftrightarrow> (\<exists>s. field clientData ''trackers'' = Str s)) \<and>
   ((\<exists>v. getTotalPeers clientData = Inr v) \<longleftrightarrow> (\<exists>s. field clientData ''totalPeers'' = Str s)) \<and>
   ((\<exists>v. getTotalSeeds clientData = Inr v) \<longleftrightarrow> (\<exists>s. field clientData ''totalSeeds'' = Str s)) \<and>
   ((\<exists>v. getAdded clientData = Inr v) \<longleftrightarrow>
      (\<not> truthy (field clientData ''added'') \<or> (\<exists>s. field clientData ''added'' = Str s))) \<and>
   ((\<exists>v. getCreationDate clientData = Inr v) \<longleftrightarrow>
      (\<not> truthy (field clientData ''creationDate'') \<or> (\<exists>s. field clientData ''creationDate'' = Str s))) \<and>
   (\<exists>v. getPercentComplete ar clientData = Inr v) \<and>
   ((\<exists>v. getEta ar fmt clientData = Inr v) \<longleftrightarrow>
      (flt ar num0 (toNumber ar (field clientData ''downloadRate'')) \<longrightarrow>
         (\<exists>v. fmt (Num (fdiv ar (fsub ar (toNumber ar (field clientData ''sizeBytes''))
                                      (toNumber ar (field clientData ''bytesDone'')))
                              (toNumber ar (field clientData ''downloadRate'')))) = Inr v))) \<and>
   ((\<exists>st'. Torrent env (Some clientData) (Some given) st = Inr st') \<longleftrightarrow>
      (\<forall>key\<in>set (resolvedKeys given). \<exists>v. keyData env clientData key = Inr v))"
  unfolding getTags_def Let_def getTotalPeers_def getTotalSeeds_def getAdded_def getCreationDate_def
  by (intro conjI getStatus_returns_iff getTags_of_returns_iff getTrackers_returns_iff
      getPeerCount_returns_iff cleanUpDate_returns_iff getPercentComplete_returns getEta_returns_iff
      Torrent_returns_iff)

lemma sampleSnapshot_fields:
  "field sampleSnapshot ''message'' = Str []"
  "field sampleSnapshot ''tags'' = Str (ustr ''b,%41'')"
  "field sampleSnapshot ''trackers'' = Str (ustr ''udp://t.a.co.uk@!@x@!@udp://b.org'')"
  "field sampleSnapshot ''totalPeers'' = Str (ustr ''12@!@34'')"
  "field sampleSnapshot ''totalSeeds'' = Str (ustr ''3@!@'')"
  "field sampleSnapshot ''added'' = Str (ustr '' 0 '')"
  "field sampleSnapshot ''creationDate'' = Undefined"
  "field sampleSnapshot ''downloadRate'' = Num num10"
  "field sampleSnapshot ''bytesDone'' = Num num10"
  "field sampleSnapshot ''sizeBytes'' = Num num100"
  by (simp_all add: sampleSnapshot_def field_def ustr_def)

lemma sampleTokens_decode:
  "\<forall>t\<in>set (split (ustr ''b,%41'') (ustr '','')). \<exists>d. decodeURIComponent t = Inr d"
  by (simp add: ustr_def decodeURIComponent_def hexDigit_def utf16_def)

lemma hash_only_keys:
  "\<forall>key\<in>set (resolvedKeys \<lparr>currentTime = Undefined, requestedData = Arr [Str (ustr ''hash'')]\<rparr>).
     \<exists>v. keyData sampleEnv [ustr ''hash'' \<mapsto> Str (ustr ''ABC'')] key = Inr v"
  by (simp add: resolvedKeys_def keyData_run)

theorem derivers_return_exactly_witness:
  "field sampleSnapshot ''message'' \<noteq> Undefined \<and> field sampleSnapshot ''message'' \<noteq> Null \<and>
   (\<exists>v. getStatus sampleStatusMap sampleSnapshot = Inr v) \<and>
   (\<exists>v. getTags sampleSnapshot = Inr v) \<and>
   (\<exists>v. getTrackers sampleExec sampleSnapshot = Inr v) \<and>
   (\<exists>v. getTotalPeers sampleSnapshot = Inr v) \<and>
   (\<exists>v. getTotalSeeds sampleSnapshot = Inr v) \<and>
   (\<exists>v. getAdded sampleSnapshot = Inr v) \<and>
   (\<exists>v. getCreationDate sampleSnapshot = Inr v) \<and>
   (\<exists>v. getPercentComplete sampleArith sampleSnapshot = Inr v) \<and>
   flt sampleArith num0 (toNumber sampleArith (field sampleSnapshot ''downloadRate'')) \<and>
   (\<exists>v. getEta sampleArith (\<lambda>v. Inr v) sampleSnapshot = Inr v) \<and>
   (\<exists>st'. Torrent sampleEnv (Some sampleSnapshot) (Some sampleOpts) emptyState = Inr st') \<and>
   (\<exists>st'. Torrent sampleEnv (Some [ustr ''hash'' \<mapsto> Str (ustr ''ABC'')])
            (Some \<lparr>currentTime = Undefined, requestedData = Arr [Str (ustr ''hash'')]\<rparr>)
            emptyState = Inr st')"
proof -
  have rate: "flt sampleArith num0 (toNumber sampleArith (field sampleSnapshot ''downloadRate''))"
    by (simp add: sampleSnapshot_fields sampleArith_def num0_def num10_def)
  note t = derivers_return_exactly [of sampleStatusMap sampleSnapshot sampleExec sampleArith
      "\<lambda>v. Inr v" sampleEnv sampleOpts emptyState]
  have derivers: "(\<exists>v. getStatus sampleStatusMap sampleSnapshot = Inr v) \<and>
   (\<exists>v. getTags sampleSnapshot = Inr v) \<and>
   (\<exists>v. getTrackers sampleExec sampleSnapshot = Inr v) \<and>
   (\<exists>v. getTotalPeers sampleSnapshot = Inr v) \<and>
   (\<exists>v. getTotalSeeds sampleSnapshot = Inr v) \<and>
   (\<exists>v. getAdded sampleSnapshot = Inr v) \<and>
   (\<exists>v. getCreationDate sampleSnapshot = Inr v) \<and>
   (\<exists>v. getPercentComplete sampleArith sampleSnapshot = Inr v) \<and>
   (\<exists>v. getEta sampleArith (\<lambda>v. Inr v) sampleSnapshot = Inr v)"
    using t rate sampleTokens_decode by (simp add: sampleSnapshot_fields)
  have full: "\<exists>st'. Torrent sampleEnv (Some sampleSnapshot) (Some sampleOpts) emptyState = Inr st'"
    using t sampleOpts_keys by blast
  have part: "\<exists>st'. Torrent sampleEnv (Some [ustr ''hash'' \<mapsto> Str (ustr ''ABC'')])
            (Some \<lparr>currentTime = Undefined, requestedData = Arr [Str (ustr ''hash'')]\<rparr>)
            emptyState = Inr st'"
    using derivers_return_exactly [of sampleStatusMap "[ustr ''hash'' \<mapsto> Str (ustr ''ABC'')]"
        sampleExec sampleArith "\<lambda>v. Inr v" sampleEnv
        "\<lparr>currentTime = Undefined, requestedData = Arr [Str (ustr ''hash'')]\<rparr>" emptyState]
      hash_only_keys
    by blast
  show ?thesis
    using derivers rate full part by (simp add: sampleSnapshot_fields)
qed

text \<open>
  C3 as stated fails: on a snapshot without \<open>message\<close>, \<open>tags\<close>, \<open>trackers\<close>,
  \<open>totalPeers\<close> and \<open>totalSeeds\<close> the five derivers of these fields raise a TypeError,
  and the constructor, called on it without options, raises.
\<close>

theorem derivers_missing_field_counterexample:
  "getStatus sampleStatusMap Map.empty = Inl TypeError \<and>
   getTags Map.empty = Inl TypeError \<and>
   getTrackers sampleExec Map.empty = Inl TypeError \<and>
   getTotalPeers Map.empty = Inl TypeError \<and>
   getTotalSeeds Map.empty = Inl TypeError \<and>
   isl (Torrent sampleEnv (Some Map.empty) None emptyState)"
proof -
  have "\<not> (\<forall>key\<in>set (resolvedKeys \<lparr>currentTime = Undefined, requestedData = Undefined\<rparr>).
             \<exists>v. keyData sampleEnv Map.empty key = Inr v)"
  proof
    assume "\<forall>key\<in>set (resolvedKeys \<lparr>currentTime = Undefined, requestedData = Undefined\<rparr>).
             \<exists>v. keyData sampleEnv Map.empty key = Inr v"
    then have "\<forall>key\<in>set DEFAULT_DATA_KEYS. \<exists>v. keyData sampleEnv Map.empty key = Inr v"
      by (simp add: resolvedKeys_def)
    then have "\<exists>v. keyData sampleEnv Map.empty (Str (ustr ''status'')) = Inr v"
      using status_default_key by blast
    then show False
      by (simp only: empty_snapshot_status) simp
  qed
  moreover have "(\<exists>st'. Torrent sampleEnv (Some Map.empty)
            (Some \<lparr>currentTime = Undefined, requestedData = Undefined\<rparr>) emptyState = Inr st') \<longleftrightarrow>
        (\<forall>key\<in>set (resolvedKeys \<lparr>currentTime = Undefined, requestedData = Undefined\<rparr>).
             \<exists>v. keyData sampleEnv Map.empty key = Inr v)"
    by (rule Torrent_returns_iff)
  ultimately have "\<nexists>st'. Torrent sampleEnv (Some Map.empty)
            (Some \<lparr>currentTime = Undefined, requestedData = Undefined\<rparr>) emptyState = Inr st'"
    by blast
  then have "isl (Torrent sampleEnv (Some Map.empty) None emptyState)"
    unfolding Torrent_None isl_iff .
  then show ?thesis
    by (simp add: getStatus_unfold getTags_def getTrackers_def getTotalPeers_def getTotalSeeds_def
        field_def)
qed

subsection \<open>The field selector and the keys of the record\<close>

text \<open>
  C9, as amended. The default list has 30 fields. It is used, without a warning, when
  \<open>requestedData\<close> is absent or any other falsy value; an array is used as it is; a
  truthy value that is not an array gives one warning and the default list, and the
  warning is there whether construction then completes or raises. Construction completes
  exactly when the value of no key of the resolved list raises. Then every field of the
  resolved list other than \<open>__proto__\<close> is a key of the record, and the record has no key
  that is not a field of the list. The field \<open>__proto__\<close> need not be a key: its
  assignment reaches the accessor that the record inherits from \<open>Object.prototype\<close>.
\<close>

theorem getClientData_field_selection:
  "length DEFAULT_DATA_KEYS = 30 \<and>
   warnings (finalState (getClientData env clientData (Some given) st)) =
     warnings st @
       (if truthy (requestedData given) \<and> \<not> isArray (requestedData given) then [warning] else []) \<and>
   ((\<exists>created st'. getClientData env clientData (Some given) st = Inr (created, st')) \<longleftrightarrow>
      (\<forall>key\<in>set (resolvedKeys given). \<exists>v. keyData env clientData key = Inr v)) \<and>
   (\<forall>created st'. getClientData env clientData (Some given) st = Inr (created, st') \<longrightarrow>
      dom (obj_at st' created) =
        toString (numbers env) ` set (resolvedKeys given) - {ustr ''__proto__''} \<and>
      ownKeys (object_at st' created) \<subseteq> toString (numbers env) ` set (resolvedKeys given))"
  using length_DEFAULT_DATA_KEYS getClientData_warnings [of env clientData given st]
    getClientData_returns_iff [of env clientData given st]
    getClientData_effect(3,4) [of env clientData given st]
  by blast

theorem getClientData_field_selection_witness:
  "truthy (Str (ustr ''hash'')) \<and> \<not> isArray (Str (ustr ''hash'')) \<and>
   (\<exists>created st'.
      getClientData sampleEnv sampleSnapshot
        (Some \<lparr>currentTime = Undefined, requestedData = Str (ustr ''hash'')\<rparr>) emptyState =
        Inr (created, st') \<and>
      warnings st' = [warning] \<and>
      dom (obj_at st' created) =
        toString (numbers sampleEnv) ` set DEFAULT_DATA_KEYS - {ustr ''__proto__''})"
proof -
  let ?given = "\<lparr>currentTime = Undefined, requestedData = Str (ustr ''hash'')\<rparr>"
  have k: "resolvedKeys ?given = DEFAULT_DATA_KEYS"
    by (simp add: resolvedKeys_def)
  have t: "truthy (Str (ustr ''hash'')) \<and> \<not> isArray (Str (ustr ''hash''))"
    by (simp add: ustr_def)
  have w: "warnings emptyState = []"
    by (simp add: emptyState_def)
  note sel = getClientData_field_selection [of sampleEnv sampleSnapshot ?given emptyState]
  from sel sample_default_keys k obtain created st' where
    r: "getClientData sampleEnv sampleSnapshot (Some ?given) emptyState = Inr (created, st')"
    by auto
  have "warnings st' = [warning]"
    using sel t w r by (simp add: finalState_def)
  moreover have "dom (obj_at st' created) =
        toString (numbers sampleEnv) ` set DEFAULT_DATA_KEYS - {ustr ''__proto__''}"
    using sel r k by auto
  ultimately show ?thesis using t r by blast
qed

lemma protoOpts_run:
  "\<not> isl (getClientData sampleEnv sampleSnapshot (Some protoOpts) emptyState) \<and>
   ustr ''__proto__'' \<notin>
     ownKeys (object_at (finalState (getClientData sampleEnv sampleSnapshot (Some protoOpts) emptyState))
       (fst (projr (getClientData sampleEnv sampleSnapshot (Some protoOpts) emptyState))))"
  by (simp add: getClientData_run resolvedKeys_def protoOpts_def emptyState_def keyData_run
      setProperty_def object_at_def putValue_def newObject_def data_def alloc_def finalState_def
      ownKeys_def)

text \<open>
  C9 as stated fails, in four ways. The empty string is a \<open>requestedData\<close> that is
  present and not an array, and no warning is emitted for it. The string \<open>hash\<close> is
  another one, and with it and the empty snapshot construction does not complete. With
  the array of \<open>__proto__\<close> and \<open>hash\<close> construction completes and \<open>__proto__\<close>, a field
  of the resolved list, is no key of the record. And the default list has not 31 fields.
\<close>

theorem getClientData_falsy_request_counterexample:
  "\<not> isArray (Str []) \<and>
   warnings (finalState (getClientData sampleEnv sampleSnapshot
     (Some \<lparr>currentTime = Undefined, requestedData = Str []\<rparr>) emptyState)) = [] \<and>
   \<not> isArray (Str (ustr ''hash'')) \<and>
   isl (getClientData sampleEnv Map.empty
     (Some \<lparr>currentTime = Undefined, requestedData = Str (ustr ''hash'')\<rparr>) emptyState) \<and>
   Str (ustr ''__proto__'') \<in> set (resolvedKeys protoOpts) \<and>
   \<not> isl (getClientData sampleEnv sampleSnapshot (Some protoOpts) emptyState) \<and>
   ustr ''__proto__'' \<notin>
     ownKeys (object_at (finalState (getClientData sampleEnv sampleSnapshot (Some protoOpts) emptyState))
       (fst (projr (getClientData sampleEnv sampleSnapshot (Some protoOpts) emptyState)))) \<and>
   length DEFAULT_DATA_KEYS \<noteq> 31"
proof -
  have 1: "warnings (finalState (getClientData sampleEnv sampleSnapshot
     (Some \<lparr>currentTime = Undefined, requestedData = Str []\<rparr>) emptyState)) = []"
    by (simp add: getClientData_warnings emptyState_def)
  let ?given = "\<lparr>currentTime = Undefined, requestedData = Str (ustr ''hash'')\<rparr>"
  have "\<not> (\<forall>key\<in>set (resolvedKeys ?given). \<exists>v. keyData sampleEnv Map.empty key = Inr v)"
  proof
    assume "\<forall>key\<in>set (resolvedKeys ?given). \<exists>v. keyData sampleEnv Map.empty key = Inr v"
    then have "\<forall>key\<in>set DEFAULT_DATA_KEYS. \<exists>v. keyData sampleEnv Map.empty key = Inr v"
      by (simp add: resolvedKeys_def)
    then have "\<exists>v. keyData sampleEnv Map.empty (Str (ustr ''status'')) = Inr v"
      using status_default_key by blast
    then show False
      by (simp only: empty_snapshot_status) simp
  qed
  moreover have "(\<exists>created st'. getClientData sampleEnv Map.empty (Some ?given) emptyState =
                    Inr (created, st')) \<longleftrightarrow>
        (\<forall>key\<in>set (resolvedKeys ?given). \<exists>v. keyData sampleEnv Map.empty key = Inr v)"
    by (rule getClientData_returns_iff)
  ultimately have "\<nexists>returned. getClientData sampleEnv Map.empty (Some ?given) emptyState =
                     Inr returned"
    by auto
  then have 2: "isl (getClientData sampleEnv Map.empty (Some ?given) emptyState)"
    unfolding isl_iff .
  have 3: "Str (ustr ''__proto__'') \<in> set (resolvedKeys protoOpts)"
    by (simp add: resolvedKeys_def protoOpts_def)
  show ?thesis
    using 1 2 3 protoOpts_run by (simp add: length_DEFAULT_DATA_KEYS)
qed


subsection \<open>The record handed to the notifier\<close>



end
